theory Spec2Isabelle
  imports Main "HOL-Library.Word"
begin

unbundle bit_operations_syntax

section \<open>Bytes, Python values and errors\<close>

type_synonym byte = "8 word"
type_synonym bytes = "byte list"

text \<open>Every exception the modelled code can raise is a value of this type.\<close>

datatype error =
    ValueError
  | TypeError
  | AttributeError
  | IndexError
  | AssertionError
  | KeyError
  | Base64Error
  | InvalidBase58Error
  | Base58ChecksumError
  | Base58TooShort
  | CTelestaiAddressError
  | CTelestaiSecretError
  | CScriptInvalidError
  | InvalidScalar
  | InvalidHeaderByte
  | RecoveryFailed
  | UnicodeEncodeError
  | SerializationTruncationError

text \<open>Sequencing of fallible steps: the first exception raised is the result.\<close>

definition bind_err :: "error + 'a \<Rightarrow> ('a \<Rightarrow> error + 'b) \<Rightarrow> error + 'b" where
  "bind_err r f = (case r of Inl e \<Rightarrow> Inl e | Inr x \<Rightarrow> f x)"

text \<open>Python's \<open>s[a:b]\<close> for \<open>0 \<le> a \<le> b\<close>: a slice never raises.\<close>

definition pyslice :: "nat \<Rightarrow> nat \<Rightarrow> 'a list \<Rightarrow> 'a list" where
  "pyslice a b xs = take (b - a) (drop a xs)"

text \<open>\<open>bytes([n])\<close>: a one-element bytes object, ValueError unless \<open>0 \<le> n < 256\<close>.\<close>

definition bytes1 :: "int \<Rightarrow> error + bytes" where
  "bytes1 n = (if 0 \<le> n \<and> n < 256 then Inr [word_of_int n] else Inl ValueError)"

text \<open>
  Python values: an integer, a string (its code points), a bytes object, a list.
  \<open>len\<close> of an integer raises TypeError; of a string, a bytes object or a list it is the
  number of elements.
\<close>

datatype pyval = PyInt int | PyStr "nat list" | PyBytes bytes | PyList "pyval list"

fun py_len :: "pyval \<Rightarrow> error + nat" where
  "py_len (PyInt n) = Inl TypeError"
| "py_len (PyStr cs) = Inr (length cs)"
| "py_len (PyBytes b) = Inr (length b)"
| "py_len (PyList xs) = Inr (length xs)"

text \<open>
  \<open>x.encode("utf-8")\<close>. Only a string has the method: on a bytes object, an integer or a
  list the attribute lookup raises AttributeError. A surrogate code point cannot be
  encoded.
\<close>

definition utf8_char :: "nat \<Rightarrow> error + bytes" where
  "utf8_char c =
     (if c < 0x80 then Inr [word_of_nat c]
      else if c < 0x800 then
        Inr [word_of_nat (0xC0 + c div 64), word_of_nat (0x80 + c mod 64)]
      else if 0xD800 \<le> c \<and> c \<le> 0xDFFF then Inl UnicodeEncodeError
      else if c < 0x10000 then
        Inr [word_of_nat (0xE0 + c div 4096), word_of_nat (0x80 + c div 64 mod 64),
             word_of_nat (0x80 + c mod 64)]
      else if c < 0x110000 then
        Inr [word_of_nat (0xF0 + c div 262144), word_of_nat (0x80 + c div 4096 mod 64),
             word_of_nat (0x80 + c div 64 mod 64), word_of_nat (0x80 + c mod 64)]
      else Inl UnicodeEncodeError)"

fun utf8 :: "nat list \<Rightarrow> error + bytes" where
  "utf8 [] = Inr []"
| "utf8 (c # cs) = bind_err (utf8_char c) (\<lambda>b. bind_err (utf8 cs) (\<lambda>r. Inr (b @ r)))"

fun encode_utf8 :: "pyval \<Rightarrow> error + bytes" where
  "encode_utf8 (PyStr cs) = utf8 cs"
| "encode_utf8 (PyInt n) = Inl AttributeError"
| "encode_utf8 (PyBytes b) = Inl AttributeError"
| "encode_utf8 (PyList xs) = Inl AttributeError"

text \<open>The position of the first occurrence of an element, as \<open>str.index\<close> finds it.\<close>

fun index_of :: "'a list \<Rightarrow> 'a \<Rightarrow> nat option" where
  "index_of [] x = None"
| "index_of (y # ys) x = (if x = y then Some 0 else map_option Suc (index_of ys x))"

text \<open>The hash functions are external; they enter the model as a record of functions.\<close>

record hash_lib =
  double_sha256 :: "bytes \<Rightarrow> bytes"
  Hash160 :: "bytes \<Rightarrow> bytes"

section \<open>Chain parameters (telestai/__init__.py)\<close>

datatype dns_seed = SeedPair string string | SeedName string

record chain_params =
  MESSAGE_START :: bytes
  DEFAULT_PORT :: int
  RPC_PORT :: int
  DNS_SEEDS :: "dns_seed list"
  BASE58_PREFIXES :: "(string \<times> int) list"
  BECH32_HRP :: string

definition MainParams :: chain_params where
  "MainParams = \<lparr>
     MESSAGE_START = [0x54, 0x45, 0x4c, 0x45],
     DEFAULT_PORT = 8767,
     RPC_PORT = 8766,
     DNS_SEEDS = [SeedPair ''dnsseed.telestainodes.xyz'' ''telestai.seeds.multicoin.co'',
                  SeedName ''seed-telestai.telestai.org''],
     BASE58_PREFIXES = [(''PUBKEY_ADDR'', 66), (''SCRIPT_ADDR'', 127), (''SECRET_KEY'', 128)],
     BECH32_HRP = ''ev'' \<rparr>"

definition TestNetParams :: chain_params where
  "TestNetParams = \<lparr>
     MESSAGE_START = [0x52, 0x56, 0x4e, 0x54],
     DEFAULT_PORT = 18770,
     RPC_PORT = 18766,
     DNS_SEEDS = [SeedPair ''seed-testnet-telestai.io'' ''seed-testnet2-telestai.io'',
                  SeedPair ''seed-testnet3-telestai.io'' ''''],
     BASE58_PREFIXES = [(''PUBKEY_ADDR'', 111), (''SCRIPT_ADDR'', 196), (''SECRET_KEY'', 239)],
     BECH32_HRP = '''' \<rparr>"

definition RegTestParams :: chain_params where
  "RegTestParams = \<lparr>
     MESSAGE_START = [0x43, 0x52, 0x4f, 0x57],
     DEFAULT_PORT = 18444,
     RPC_PORT = 18443,
     DNS_SEEDS = [],
     BASE58_PREFIXES = [(''PUBKEY_ADDR'', 111), (''SCRIPT_ADDR'', 196), (''SECRET_KEY'', 239)],
     BECH32_HRP = '''' \<rparr>"

text \<open>\<open>params.BASE58_PREFIXES[k]\<close>: a dictionary lookup, KeyError on a missing key.\<close>

definition base58_prefix :: "chain_params \<Rightarrow> string \<Rightarrow> error + int" where
  "base58_prefix p k =
     (case map_of (BASE58_PREFIXES p) k of None \<Rightarrow> Inl KeyError | Some v \<Rightarrow> Inr v)"

text \<open>
  The process-wide state: the module global \<open>telestai.params\<close> and the global
  \<open>telestai.core.coreparams\<close>. The core parameter classes are not part of the modelled
  files; only which chain they belong to is recorded.
\<close>

datatype core_chain = CoreMain | CoreTestNet | CoreRegTest

record globals =
  params :: chain_params
  coreparams :: core_chain

text \<open>
  Modelled from the spec: \<open>telestai.core._SelectCoreParams\<close> is not among the source
  files. Section 4.1 of the specification has selection fail with an unknown-network error
  for any name other than the three chain names and otherwise replace the parameter set;
  the core selector is modelled the same way on the core parameters.
\<close>

definition SelectCoreParams :: "string \<Rightarrow> globals \<Rightarrow> error + globals" where
  "SelectCoreParams name g =
     (if name = ''mainnet'' then Inr (g\<lparr>coreparams := CoreMain\<rparr>)
      else if name = ''testnet'' then Inr (g\<lparr>coreparams := CoreTestNet\<rparr>)
      else if name = ''regtest'' then Inr (g\<lparr>coreparams := CoreRegTest\<rparr>)
      else Inl ValueError)"

text \<open>
  \<open>SelectParams(name)\<close>. The result pairs the outcome (the exception raised, if any) with
  the globals as they are when the call ends, so that what a failing call leaves behind is
  visible.
\<close>

definition SelectParams :: "string \<Rightarrow> globals \<Rightarrow> error option \<times> globals" where
  "SelectParams name g =
     (case SelectCoreParams name g of
        Inl e \<Rightarrow> (Some e, g)
      | Inr g1 \<Rightarrow>
          if name = ''mainnet'' then (None, g1\<lparr>params := MainParams, coreparams := CoreMain\<rparr>)
          else if name = ''testnet'' then
            (None, g1\<lparr>params := TestNetParams, coreparams := CoreTestNet\<rparr>)
          else if name = ''regtest'' then
            (None, g1\<lparr>params := RegTestParams, coreparams := CoreRegTest\<rparr>)
          else (Some ValueError, g1))"

section \<open>The curve library and keys (telestai/wallet.py, class CKey)\<close>

text \<open>
  The elliptic-curve primitives are an external library. They enter the model as a record
  of functions: whether a secret is accepted, the serialised public key of a secret (33
  bytes compressed, 65 uncompressed), signing, compact signing (64 signature bytes and a
  recovery id), recovery of the public key from a compact signature, and the validity
  check of a public key.
\<close>

record curve_lib =
  set_secretbytes_ok :: "bytes \<Rightarrow> bool"
  get_pubkey :: "bytes \<Rightarrow> bool \<Rightarrow> bytes"
  ecdsa_sign :: "bytes \<Rightarrow> bytes \<Rightarrow> bytes"
  ecdsa_sign_compact :: "bytes \<Rightarrow> bytes \<Rightarrow> bytes \<times> int"
  ecdsa_recover :: "bytes \<Rightarrow> bytes \<Rightarrow> int \<Rightarrow> bool \<Rightarrow> bytes option"
  pubkey_fullyvalid :: "bytes \<Rightarrow> bool"

record CKey =
  cec_secret :: bytes
  cec_compressed :: bool
  pub :: bytes

text \<open>\<open>CKey.__init__(secret, compressed)\<close>; a rejected secret is the error InvalidScalar.\<close>

definition CKey_init :: "curve_lib \<Rightarrow> bytes \<Rightarrow> bool \<Rightarrow> error + CKey" where
  "CKey_init ec secret compressed =
     (if set_secretbytes_ok ec secret
      then Inr \<lparr>cec_secret = secret, cec_compressed = compressed,
                pub = get_pubkey ec secret compressed\<rparr>
      else Inl InvalidScalar)"

text \<open>
  Modelled from the spec: the class \<open>CPubKey\<close> is not among the source files; the data
  model has a public key of 33 (compressed) or 65 bytes. \<open>CKey.is_compressed\<close> is
  \<open>self.pub.is_compressed\<close>, which is modelled as the test for 33 bytes.
\<close>

definition is_compressed :: "CKey \<Rightarrow> bool" where
  "is_compressed k = (length (pub k) = 33)"

definition CKey_sign :: "curve_lib \<Rightarrow> CKey \<Rightarrow> bytes \<Rightarrow> bytes" where
  "CKey_sign ec k h = ecdsa_sign ec (cec_secret k) h"

definition CKey_sign_compact :: "curve_lib \<Rightarrow> CKey \<Rightarrow> bytes \<Rightarrow> bytes \<times> int" where
  "CKey_sign_compact ec k h = ecdsa_sign_compact ec (cec_secret k) h"

section \<open>Scripts\<close>

text \<open>
  Modelled from the spec: the script module (\<open>CScript\<close>, the opcodes, the template
  predicates) is not among the source files. A script is its serialised bytes; the list
  constructor \<open>CScript([...])\<close> turns an opcode into its byte and a bytes element into a
  data push with the shortest length prefix.
\<close>

definition OP_0 :: byte where "OP_0 = 0x00"
definition OP_PUSHDATA1 :: byte where "OP_PUSHDATA1 = 0x4c"
definition OP_PUSHDATA2 :: byte where "OP_PUSHDATA2 = 0x4d"
definition OP_PUSHDATA4 :: byte where "OP_PUSHDATA4 = 0x4e"
definition OP_DUP :: byte where "OP_DUP = 0x76"
definition OP_EQUAL :: byte where "OP_EQUAL = 0x87"
definition OP_EQUALVERIFY :: byte where "OP_EQUALVERIFY = 0x88"
definition OP_HASH160 :: byte where "OP_HASH160 = 0xa9"
definition OP_CHECKSIG :: byte where "OP_CHECKSIG = 0xac"

text \<open>The \<open>k\<close> low bytes of \<open>n\<close>, least significant first (\<open>struct.pack('<H', n)\<close> and so on).\<close>

fun le_bytes :: "nat \<Rightarrow> nat \<Rightarrow> bytes" where
  "le_bytes 0 n = []"
| "le_bytes (Suc k) n = word_of_nat (n mod 256) # le_bytes k (n div 256)"

definition pushdata :: "bytes \<Rightarrow> bytes" where
  "pushdata d =
     (if length d < 0x4c then word_of_nat (length d) # d
      else if length d \<le> 0xff then OP_PUSHDATA1 # word_of_nat (length d) # d
      else if length d \<le> 0xffff then OP_PUSHDATA2 # le_bytes 2 (length d) @ d
      else OP_PUSHDATA4 # le_bytes 4 (length d) @ d)"

definition encode_op_pushdata :: "bytes \<Rightarrow> error + bytes" where
  "encode_op_pushdata d = (if length d \<le> 0xffffffff then Inr (pushdata d) else Inl ValueError)"

datatype script_elem = Op byte | Data bytes

fun coerce_elem :: "script_elem \<Rightarrow> error + bytes" where
  "coerce_elem (Op b) = Inr [b]"
| "coerce_elem (Data d) = encode_op_pushdata d"

fun CScript :: "script_elem list \<Rightarrow> error + bytes" where
  "CScript [] = Inr []"
| "CScript (x # xs) =
     bind_err (coerce_elem x) (\<lambda>b. bind_err (CScript xs) (\<lambda>r. Inr (b @ r)))"

text \<open>
  \<open>self + other\<close> on scripts, as the script class of the library has it
  (\<open>CScript.__add__\<close>): the operand is coerced the way the list constructor coerces an
  element, and the result is appended. A script is itself a bytes object, so a script
  operand is appended as one data push of its bytes, not as its bytes.
\<close>

definition CScript_add :: "bytes \<Rightarrow> bytes \<Rightarrow> error + bytes" where
  "CScript_add self other = bind_err (coerce_elem (Data other)) (\<lambda>b. Inr (self @ b))"

section \<open>Multisig signing (evrmore/core/transaction.py)\<close>

text \<open>
  Modelled from the spec: the transaction classes are not among the source files. A
  transaction has a version, inputs, outputs and a lock time; an input has the outpoint it
  spends, its unlocking script and a sequence number.
\<close>

record txin =
  prevout :: "bytes \<times> nat"
  scriptSig :: bytes
  nSequence :: nat

record txout =
  nValue :: int
  scriptPubKey :: bytes

record transaction =
  tx_nVersion :: int
  vin :: "txin list"
  vout :: "txout list"
  nLockTime :: nat

text \<open>
  Modelled from the spec: the redeem script class is not among the source files. The data
  model gives a redeem script its serialised bytes and \<open>required\<close>, the multisig threshold,
  an unsigned 32-bit number; the field is kept as a Python value so that what \<open>len\<close> does
  on it is part of the model.
\<close>

record redeem_script =
  rs_bytes :: bytes
  required :: pyval

definition SIGHASH_ALL :: int where "SIGHASH_ALL = 1"
definition SIGVERSION_BASE :: int where "SIGVERSION_BASE = 0"

text \<open>
  The signature hash is computed by the external script layer; it is a parameter
  \<open>sighash\<close> taking the script, the transaction, the input index, the hash type and the
  signature version.
\<close>

type_synonym sighash_fn =
  "redeem_script \<Rightarrow> transaction \<Rightarrow> nat \<Rightarrow> int \<Rightarrow> int \<Rightarrow> error + bytes"

text \<open>The \<open>for privkey in private_keys\<close> loop, with the list of signatures built so far.\<close>

fun sign_loop ::
  "curve_lib \<Rightarrow> bytes \<Rightarrow> redeem_script \<Rightarrow> CKey list \<Rightarrow> bytes list \<Rightarrow> error + bytes list"
where
  "sign_loop ec h rs [] signatures = Inr signatures"
| "sign_loop ec h rs (privkey # rest) signatures =
     bind_err (py_len (required rs)) (\<lambda>n.
       if length signatures \<ge> n then Inr signatures
       else bind_err (bytes1 SIGHASH_ALL) (\<lambda>t.
         sign_loop ec h rs rest (signatures @ [CKey_sign ec privkey h @ t])))"

definition sign_with_multiple_keys ::
  "sighash_fn \<Rightarrow> curve_lib \<Rightarrow> transaction \<Rightarrow> CKey list \<Rightarrow> redeem_script \<Rightarrow> int
     \<Rightarrow> error + bytes list"
where
  "sign_with_multiple_keys sighash ec self private_keys rs sigversion =
     bind_err (sighash rs self 0 SIGHASH_ALL sigversion) (\<lambda>h.
       sign_loop ec h rs private_keys [])"

text \<open>
  The \<open>for sig in signatures: scriptSig += CScript([sig])\<close> loop: each signature is made
  a script of one push, and that script is added to \<open>scriptSig\<close> with \<open>+\<close>.
\<close>

fun append_sigs :: "bytes \<Rightarrow> bytes list \<Rightarrow> error + bytes" where
  "append_sigs acc [] = Inr acc"
| "append_sigs acc (sig # sigs) =
     bind_err (CScript [Data sig]) (\<lambda>s.
       bind_err (CScript_add acc s) (\<lambda>acc1. append_sigs acc1 sigs))"

text \<open>The local \<open>scriptSig\<close> that \<open>apply_multisig_signatures\<close> builds.\<close>

definition multisig_scriptSig :: "bytes list \<Rightarrow> redeem_script \<Rightarrow> error + bytes" where
  "multisig_scriptSig signatures rs =
     bind_err (CScript [Op OP_0]) (\<lambda>s0.
     bind_err (append_sigs s0 signatures) (\<lambda>s1.
     bind_err (CScript [Data (rs_bytes rs)]) (\<lambda>r. CScript_add s1 r)))"

text \<open>
  An attribute assignment \<open>txin.scriptSig = v\<close>. The transaction class the method's class
  derives from and its inputs are the immutable serialisable objects of the library (the
  kind \<open>TelestaiMessage\<close> in signmessage.py is, whose constructor has to set its fields
  through \<open>object.__setattr__\<close>): assigning to an attribute raises AttributeError and
  leaves the object as it was.
\<close>

definition txin_set_scriptSig :: "txin \<Rightarrow> bytes \<Rightarrow> error + txin" where
  "txin_set_scriptSig i v = Inl AttributeError"

text \<open>
  \<open>apply_multisig_signatures\<close> builds the script and assigns it to
  \<open>self.vin[0].scriptSig\<close>; the model returns the transaction after the assignment.
  Indexing an empty \<open>vin\<close> raises IndexError.
\<close>

definition apply_multisig_signatures ::
  "transaction \<Rightarrow> bytes list \<Rightarrow> redeem_script \<Rightarrow> error + transaction"
where
  "apply_multisig_signatures self signatures rs =
     bind_err (multisig_scriptSig signatures rs) (\<lambda>s.
       (case vin self of
          [] \<Rightarrow> Inl IndexError
        | i0 # ins \<Rightarrow>
            bind_err (txin_set_scriptSig i0 s) (\<lambda>i1. Inr (self\<lparr>vin := i1 # ins\<rparr>))))"

section \<open>Base58\<close>

text \<open>
  Modelled from the spec: the module \<open>telestai.base58\<close> (\<open>encode\<close>, \<open>decode\<close>, the class
  \<open>CBase58Data\<close>) is not among the source files. Section 4.2 has a base-58 text encoding
  of bytes whose decoder rejects a character outside the 58-symbol alphabet, rejects
  fewer than four decoded bytes, and rejects a trailing four bytes that are not the
  double-SHA256 prefix of the bytes before them. The encoder reads the bytes as a
  big-endian number, writes it in base 58 and puts one \<open>1\<close> in front for each leading zero
  byte; the decoder inverts this.
\<close>

definition B58_DIGITS :: string where
  "B58_DIGITS = ''123456789ABCDEFGHJKLMNPQRSTUVWXYZabcdefghijkmnopqrstuvwxyz''"

text \<open>The digits of \<open>n\<close> in base \<open>b\<close>, least significant first; none for \<open>0\<close>.\<close>

function to_digits :: "nat \<Rightarrow> nat \<Rightarrow> nat list" where
  "to_digits b n = (if n = 0 \<or> b < 2 then [] else (n mod b) # to_digits b (n div b))"
  by pat_completeness auto
termination
  by (relation "measure snd") auto

definition be_nat :: "bytes \<Rightarrow> nat" where
  "be_nat bs = foldl (\<lambda>a b. a * 256 + unat b) 0 bs"

definition be_bytes :: "nat \<Rightarrow> bytes" where
  "be_bytes n = map word_of_nat (rev (to_digits 256 n))"

text \<open>The number a list of digits stands for, least significant digit first.\<close>

definition digits_value :: "nat \<Rightarrow> nat list \<Rightarrow> nat" where
  "digits_value b ds = foldr (\<lambda>d a. d + b * a) ds 0"

definition b58encode :: "bytes \<Rightarrow> string" where
  "b58encode b =
     replicate (length (takeWhile (\<lambda>c. c = 0) b)) (CHR ''1'')
     @ map (\<lambda>d. B58_DIGITS ! d) (rev (to_digits 58 (be_nat b)))"

fun b58_value :: "nat \<Rightarrow> string \<Rightarrow> error + nat" where
  "b58_value n [] = Inr n"
| "b58_value n (c # cs) =
     (case index_of B58_DIGITS c of
        None \<Rightarrow> Inl InvalidBase58Error
      | Some d \<Rightarrow> b58_value (n * 58 + d) cs)"

definition b58decode :: "string \<Rightarrow> error + bytes" where
  "b58decode s =
     bind_err (b58_value 0 s) (\<lambda>n.
       Inr (replicate (length (takeWhile (\<lambda>c. c = CHR ''1'') s)) 0 @ be_bytes n))"

record CBase58Data =
  nVersion :: int
  raw :: bytes

definition CBase58Data_from_bytes :: "bytes \<Rightarrow> int \<Rightarrow> CBase58Data" where
  "CBase58Data_from_bytes d v = \<lparr>nVersion = v, raw = d\<rparr>"

text \<open>\<open>CBase58Data(s)\<close>: decode, check the checksum, split off the version byte.\<close>

definition CBase58Data_new :: "hash_lib \<Rightarrow> string \<Rightarrow> error + CBase58Data" where
  "CBase58Data_new H s =
     bind_err (b58decode s) (\<lambda>k.
       if length k < 4 then Inl Base58TooShort
       else
         let body = take (length k - 4) k;
             check0 = drop (length k - 4) k;
             check1 = take 4 (double_sha256 H body)
         in if check0 \<noteq> check1 then Inl Base58ChecksumError
            else (case body of
                    [] \<Rightarrow> Inl Base58TooShort
                  | v # d \<Rightarrow> Inr (CBase58Data_from_bytes d (uint v))))"

text \<open>\<open>str(x)\<close> of base58 data: version byte, payload and checksum, base-58 encoded.\<close>

definition CBase58Data_str :: "hash_lib \<Rightarrow> CBase58Data \<Rightarrow> error + string" where
  "CBase58Data_str H self =
     bind_err (bytes1 (nVersion self)) (\<lambda>vb.
       let vs = vb @ raw self
       in Inr (b58encode (vs @ take 4 (double_sha256 H vs))))"

section \<open>Script templates\<close>

text \<open>
  Modelled from the spec: the template predicates of the script class are not among the
  source files. Section 4.3 gives the P2SH template as \<open>OP_HASH160 <20 bytes> OP_EQUAL\<close>;
  a witness-v0 key-hash script is \<open>OP_0\<close> and a push of a 20-byte program, a witness-v0
  script-hash script is \<open>OP_0\<close> and a push of a 32-byte program, and the nested key-hash
  form is a single push of the 22-byte witness-v0 key-hash script.
\<close>

definition is_p2sh :: "bytes \<Rightarrow> bool" where
  "is_p2sh s \<longleftrightarrow>
     length s = 23 \<and> s ! 0 = OP_HASH160 \<and> s ! 1 = 0x14 \<and> s ! 22 = OP_EQUAL"

definition is_witness_v0_keyhash :: "bytes \<Rightarrow> bool" where
  "is_witness_v0_keyhash s \<longleftrightarrow> length s = 22 \<and> pyslice 0 2 s = [0x00, 0x14]"

definition is_witness_v0_nested_keyhash :: "bytes \<Rightarrow> bool" where
  "is_witness_v0_nested_keyhash s \<longleftrightarrow> length s = 23 \<and> pyslice 0 3 s = [0x16, 0x00, 0x14]"

definition is_witness_v0_scripthash :: "bytes \<Rightarrow> bool" where
  "is_witness_v0_scripthash s \<longleftrightarrow> length s = 34 \<and> pyslice 0 2 s = [0x00, 0x20]"

text \<open>
  Modelled from the spec: the canonicalising constructor (\<open>CScript(tuple(script))\<close>) is not
  among the source files. Section 6 has it normalise push operations: the script is read
  operation by operation and every data push is written again with the shortest length
  prefix. A push whose length bytes or data are cut short makes the script invalid.
  \<open>read_push_size\<close> gives the size of the data and the number of length bytes that follow
  the opcode.
\<close>

definition read_push_size :: "byte \<Rightarrow> bytes \<Rightarrow> error + nat \<times> nat" where
  "read_push_size opcode rest =
     (if opcode < OP_PUSHDATA1 then Inr (unat opcode, 0)
      else if opcode = OP_PUSHDATA1 then
        (if length rest < 1 then Inl CScriptInvalidError else Inr (unat (rest ! 0), 1))
      else if opcode = OP_PUSHDATA2 then
        (if length rest < 2 then Inl CScriptInvalidError
         else Inr (unat (rest ! 0) + unat (rest ! 1) * 256, 2))
      else
        (if length rest < 4 then Inl CScriptInvalidError
         else Inr (unat (rest ! 0) + unat (rest ! 1) * 256 + unat (rest ! 2) * 65536
                     + unat (rest ! 3) * 16777216, 4)))"

fun canonicalize :: "bytes \<Rightarrow> error + bytes" where
  "canonicalize [] = Inr []"
| "canonicalize (opcode # rest) =
     (if opcode > OP_PUSHDATA4 then
        (case canonicalize rest of Inl e \<Rightarrow> Inl e | Inr r \<Rightarrow> Inr (opcode # r))
      else
        (case read_push_size opcode rest of
           Inl e \<Rightarrow> Inl e
         | Inr (datasize, nlen) \<Rightarrow>
             if length (drop nlen rest) < datasize then Inl CScriptInvalidError
             else
               (case canonicalize (drop (nlen + datasize) rest) of
                  Inl e \<Rightarrow> Inl e
                | Inr r \<Rightarrow>
                    if opcode = OP_0 then Inr (OP_0 # r)
                    else
                      (case encode_op_pushdata (take datasize (drop nlen rest)) of
                         Inl e \<Rightarrow> Inl e
                       | Inr b \<Rightarrow> Inr (b @ r)))))"

section \<open>Addresses (telestai/wallet.py)\<close>

record CBech32Data =
  witver :: int
  witprog :: bytes

text \<open>
  The class of an address object is the constructor, the object's data its argument. The
  base58 classes and the bech32 classes are two families: no function of the model
  returns both.
\<close>

datatype address = P2SHTelestaiAddress CBase58Data | P2PKHTelestaiAddress CBase58Data

datatype bech32_address = P2WSHTelestaiAddress CBech32Data | P2WPKHTelestaiAddress CBech32Data

text \<open>\<open>CBech32TelestaiAddress.from_bytes\<close>: \<open>assert witver == 0\<close>, then the class by length.\<close>

definition CBech32TelestaiAddress_from_bytes :: "int \<Rightarrow> bytes \<Rightarrow> error + bech32_address" where
  "CBech32TelestaiAddress_from_bytes wv prog =
     (if wv \<noteq> 0 then Inl AssertionError
      else if length prog = 32 then Inr (P2WSHTelestaiAddress \<lparr>witver = wv, witprog = prog\<rparr>)
      else if length prog = 20 then Inr (P2WPKHTelestaiAddress \<lparr>witver = wv, witprog = prog\<rparr>)
      else Inl CTelestaiAddressError)"

definition P2WSH_from_scriptPubKey :: "bytes \<Rightarrow> error + bech32_address" where
  "P2WSH_from_scriptPubKey spk =
     (if is_witness_v0_scripthash spk then CBech32TelestaiAddress_from_bytes 0 (pyslice 2 34 spk)
      else Inl CTelestaiAddressError)"

definition P2WPKH_from_scriptPubKey :: "bytes \<Rightarrow> error + bech32_address" where
  "P2WPKH_from_scriptPubKey spk =
     (if is_witness_v0_keyhash spk then CBech32TelestaiAddress_from_bytes 0 (pyslice 2 22 spk)
      else Inl CTelestaiAddressError)"

text \<open>\<open>try: return a  except CTelestaiAddressError: pass\<close>, followed by \<open>b\<close>.\<close>

definition or_else :: "error + 'a \<Rightarrow> (error + 'a) \<Rightarrow> error + 'a" where
  "or_else a b = (case a of Inl CTelestaiAddressError \<Rightarrow> b | _ \<Rightarrow> a)"

definition CBech32TelestaiAddress_from_scriptPubKey :: "bytes \<Rightarrow> error + bech32_address" where
  "CBech32TelestaiAddress_from_scriptPubKey spk =
     or_else (P2WSH_from_scriptPubKey spk)
       (or_else (P2WPKH_from_scriptPubKey spk) (Inl CTelestaiAddressError))"

definition CBase58TelestaiAddress_from_bytes ::
  "chain_params \<Rightarrow> bytes \<Rightarrow> int \<Rightarrow> error + address"
where
  "CBase58TelestaiAddress_from_bytes p d v =
     (let self = CBase58Data_from_bytes d v
      in bind_err (base58_prefix p ''SCRIPT_ADDR'') (\<lambda>sa.
           if v = sa then Inr (P2SHTelestaiAddress self)
           else bind_err (base58_prefix p ''PUBKEY_ADDR'') (\<lambda>pa.
             if v = pa then Inr (P2PKHTelestaiAddress self)
             else Inl CTelestaiAddressError)))"

text \<open>\<open>P2SHTelestaiAddress.from_bytes(data, nVersion=None)\<close>.\<close>

definition P2SH_from_bytes :: "chain_params \<Rightarrow> bytes \<Rightarrow> int option \<Rightarrow> error + address" where
  "P2SH_from_bytes p d v =
     (case v of
        None \<Rightarrow> bind_err (base58_prefix p ''SCRIPT_ADDR'') (CBase58TelestaiAddress_from_bytes p d)
      | Some n \<Rightarrow>
          bind_err (base58_prefix p ''SCRIPT_ADDR'') (\<lambda>sa.
            if n \<noteq> sa then Inl ValueError else CBase58TelestaiAddress_from_bytes p d n))"

definition P2SH_from_scriptPubKey :: "chain_params \<Rightarrow> bytes \<Rightarrow> error + address" where
  "P2SH_from_scriptPubKey p spk =
     (if is_p2sh spk then
        bind_err (base58_prefix p ''SCRIPT_ADDR'') (\<lambda>sa. P2SH_from_bytes p (pyslice 2 22 spk) (Some sa))
      else Inl CTelestaiAddressError)"

text \<open>\<open>P2PKHTelestaiAddress.from_bytes(data, nVersion=None)\<close>.\<close>

definition P2PKH_from_bytes :: "chain_params \<Rightarrow> bytes \<Rightarrow> int option \<Rightarrow> error + address" where
  "P2PKH_from_bytes p d v =
     (case v of
        None \<Rightarrow> bind_err (base58_prefix p ''PUBKEY_ADDR'') (CBase58TelestaiAddress_from_bytes p d)
      | Some n \<Rightarrow>
          bind_err (base58_prefix p ''PUBKEY_ADDR'') (\<lambda>pa.
            if n \<noteq> pa then Inl ValueError else CBase58TelestaiAddress_from_bytes p d n))"

text \<open>
  \<open>P2PKHTelestaiAddress.from_pubkey(pubkey, accept_invalid=False)\<close>. The public key is a
  bytes object in every call the model makes, so the \<open>isinstance\<close> test passes.
\<close>

definition P2PKH_from_pubkey ::
  "chain_params \<Rightarrow> hash_lib \<Rightarrow> curve_lib \<Rightarrow> bytes \<Rightarrow> bool \<Rightarrow> error + address"
where
  "P2PKH_from_pubkey p H ec pubkey accept_invalid =
     (if \<not> accept_invalid \<and> \<not> pubkey_fullyvalid ec pubkey then Inl CTelestaiAddressError
      else P2PKH_from_bytes p (Hash160 H pubkey) None)"

definition P2PKH_from_scriptPubKey ::
  "chain_params \<Rightarrow> hash_lib \<Rightarrow> curve_lib \<Rightarrow> bytes \<Rightarrow> bool \<Rightarrow> bool \<Rightarrow> error + address"
where
  "P2PKH_from_scriptPubKey p H ec spk0 accept_non_canonical_pushdata accept_bare_checksig =
     bind_err
       (if accept_non_canonical_pushdata then
          (case canonicalize spk0 of
             Inl CScriptInvalidError \<Rightarrow> Inl CTelestaiAddressError
           | r \<Rightarrow> r)
        else Inr spk0)
       (\<lambda>spk.
          if is_witness_v0_keyhash spk then
            bind_err (base58_prefix p ''PUBKEY_ADDR'') (\<lambda>pa.
              P2PKH_from_bytes p (pyslice 2 22 spk) (Some pa))
          else if is_witness_v0_nested_keyhash spk then
            bind_err (base58_prefix p ''PUBKEY_ADDR'') (\<lambda>pa.
              P2PKH_from_bytes p (pyslice 3 23 spk) (Some pa))
          else if length spk = 25
                  \<and> spk ! 0 = OP_DUP
                  \<and> spk ! 1 = OP_HASH160
                  \<and> spk ! 2 = 0x14
                  \<and> spk ! 23 = OP_EQUALVERIFY
                  \<and> spk ! 24 = OP_CHECKSIG then
            bind_err (base58_prefix p ''PUBKEY_ADDR'') (\<lambda>pa.
              P2PKH_from_bytes p (pyslice 3 23 spk) (Some pa))
          else if accept_bare_checksig then
            (let pubkey =
                   (if length spk = 35 \<and> spk ! 0 = 0x21 \<and> spk ! 34 = OP_CHECKSIG
                    then Some (pyslice 1 34 spk)
                    else if length spk = 67 \<and> spk ! 0 = 0x41 \<and> spk ! 66 = OP_CHECKSIG
                    then Some (pyslice 1 65 spk)
                    else None)
             in case pubkey of
                  Some pk \<Rightarrow> P2PKH_from_pubkey p H ec pk True
                | None \<Rightarrow> Inl CTelestaiAddressError)
          else Inl CTelestaiAddressError)"

definition CBase58TelestaiAddress_from_scriptPubKey ::
  "chain_params \<Rightarrow> hash_lib \<Rightarrow> curve_lib \<Rightarrow> bytes \<Rightarrow> error + address"
where
  "CBase58TelestaiAddress_from_scriptPubKey p H ec spk =
     or_else (P2SH_from_scriptPubKey p spk)
       (or_else (P2PKH_from_scriptPubKey p H ec spk True True) (Inl CTelestaiAddressError))"

text \<open>
  \<open>CTelestaiAddress.from_scriptPubKey\<close>. The attempt through
  \<open>CBech32TelestaiAddress.from_scriptPubKey\<close> is commented out in the source, so only the
  base58 classes are tried.
\<close>

definition CTelestaiAddress_from_scriptPubKey ::
  "chain_params \<Rightarrow> hash_lib \<Rightarrow> curve_lib \<Rightarrow> bytes \<Rightarrow> error + address"
where
  "CTelestaiAddress_from_scriptPubKey p H ec spk =
     or_else (CBase58TelestaiAddress_from_scriptPubKey p H ec spk) (Inl CTelestaiAddressError)"

text \<open>\<open>to_scriptPubKey\<close> of each class; the method called depends on the object's class.\<close>

definition P2SH_to_scriptPubKey :: "chain_params \<Rightarrow> CBase58Data \<Rightarrow> error + bytes" where
  "P2SH_to_scriptPubKey p self =
     bind_err (base58_prefix p ''SCRIPT_ADDR'') (\<lambda>sa.
       if nVersion self \<noteq> sa then Inl AssertionError
       else CScript [Op OP_HASH160, Data (raw self), Op OP_EQUAL])"

definition P2PKH_to_scriptPubKey :: "chain_params \<Rightarrow> CBase58Data \<Rightarrow> error + bytes" where
  "P2PKH_to_scriptPubKey p self =
     bind_err (base58_prefix p ''PUBKEY_ADDR'') (\<lambda>pa.
       if nVersion self \<noteq> pa then Inl AssertionError
       else CScript [Op OP_DUP, Op OP_HASH160, Data (raw self), Op OP_EQUALVERIFY,
                     Op OP_CHECKSIG])"

definition witness_to_scriptPubKey :: "CBech32Data \<Rightarrow> error + bytes" where
  "witness_to_scriptPubKey self =
     (if witver self \<noteq> 0 then Inl AssertionError else CScript [Op OP_0, Data (witprog self)])"

fun to_scriptPubKey :: "chain_params \<Rightarrow> address \<Rightarrow> error + bytes" where
  "to_scriptPubKey p (P2SHTelestaiAddress self) = P2SH_to_scriptPubKey p self"
| "to_scriptPubKey p (P2PKHTelestaiAddress self) = P2PKH_to_scriptPubKey p self"

fun bech32_to_scriptPubKey :: "bech32_address \<Rightarrow> error + bytes" where
  "bech32_to_scriptPubKey (P2WSHTelestaiAddress self) = witness_to_scriptPubKey self"
| "bech32_to_scriptPubKey (P2WPKHTelestaiAddress self) = witness_to_scriptPubKey self"

section \<open>Secret keys and WIF (telestai/wallet.py, class CTelestaiSecret)\<close>

text \<open>
  A \<open>CTelestaiSecret\<close> is base58 data (its bytes and version) together with the key set up
  by \<open>CKey.__init__\<close>.
\<close>

record CTelestaiSecret =
  b58 :: CBase58Data
  key :: CKey

text \<open>\<open>CTelestaiSecret.__init__\<close>, run on an object whose bytes and version are set.\<close>

definition CTelestaiSecret_init ::
  "chain_params \<Rightarrow> curve_lib \<Rightarrow> CBase58Data \<Rightarrow> error + CTelestaiSecret"
where
  "CTelestaiSecret_init p ec self =
     bind_err (base58_prefix p ''SECRET_KEY'') (\<lambda>sk.
       if nVersion self \<noteq> sk then Inl CTelestaiSecretError
       else
         bind_err (CKey_init ec (pyslice 0 32 (raw self))
                     (length (raw self) > 32 \<and> raw self ! 32 = 1))
           (\<lambda>k. Inr \<lparr>b58 = self, key = k\<rparr>))"

definition from_secret_bytes ::
  "chain_params \<Rightarrow> curve_lib \<Rightarrow> bytes \<Rightarrow> bool \<Rightarrow> error + CTelestaiSecret"
where
  "from_secret_bytes p ec secret compressed =
     bind_err (base58_prefix p ''SECRET_KEY'') (\<lambda>sk.
       CTelestaiSecret_init p ec
         (CBase58Data_from_bytes (secret @ (if compressed then [0x01] else [])) sk))"

text \<open>\<open>CTelestaiSecret(s)\<close>: the base58 constructor, then \<open>__init__\<close>.\<close>

definition CTelestaiSecret_new ::
  "chain_params \<Rightarrow> hash_lib \<Rightarrow> curve_lib \<Rightarrow> string \<Rightarrow> error + CTelestaiSecret"
where
  "CTelestaiSecret_new p H ec s = bind_err (CBase58Data_new H s) (CTelestaiSecret_init p ec)"

definition to_wif :: "chain_params \<Rightarrow> hash_lib \<Rightarrow> CTelestaiSecret \<Rightarrow> error + string" where
  "to_wif p H self =
     (let payload = raw (b58 self) @ (if is_compressed (key self) then [0x01] else [])
      in bind_err (base58_prefix p ''SECRET_KEY'') (\<lambda>version_byte.
           bind_err (bytes1 version_byte) (\<lambda>vb.
             let payload1 = vb @ payload;
                 checksum = take 4 (double_sha256 H payload1);
                 final_payload = payload1 @ checksum
             in Inr (b58encode final_payload))))"

section \<open>Signed messages (telestai/signmessage.py)\<close>

text \<open>
  Modelled from the spec: the serialisers of \<open>telestai.core.serialize\<close> are not among the
  source files. Section 4.5 serialises a message as the length-prefixed magic followed by
  the length-prefixed message bytes and hashes that with double SHA-256. The length
  prefix is the variable-length integer of the wire format: one byte below \<open>0xfd\<close>,
  otherwise a marker byte and 2, 4 or 8 little-endian bytes (a Python object is shorter
  than \<open>2^63\<close>, so 8 bytes always suffice). Reading past the end of the stream is a
  truncation error.
\<close>

definition VarInt_serialize :: "nat \<Rightarrow> bytes" where
  "VarInt_serialize i =
     (if i < 0xfd then [word_of_nat i]
      else if i \<le> 0xffff then 0xfd # le_bytes 2 i
      else if i \<le> 0xffffffff then 0xfe # le_bytes 4 i
      else 0xff # le_bytes 8 i)"

definition ser_read :: "bytes \<Rightarrow> nat \<Rightarrow> error + bytes \<times> bytes" where
  "ser_read f n =
     (if length f < n then Inl SerializationTruncationError else Inr (take n f, drop n f))"

definition le_nat :: "bytes \<Rightarrow> nat" where
  "le_nat bs = foldr (\<lambda>b a. unat b + 256 * a) bs 0"

definition VarInt_deserialize :: "bytes \<Rightarrow> error + nat \<times> bytes" where
  "VarInt_deserialize f =
     bind_err (ser_read f 1) (\<lambda>(r, f1).
       if hd r < 0xfd then Inr (unat (hd r), f1)
       else if hd r = 0xfd then bind_err (ser_read f1 2) (\<lambda>(b, f2). Inr (le_nat b, f2))
       else if hd r = 0xfe then bind_err (ser_read f1 4) (\<lambda>(b, f2). Inr (le_nat b, f2))
       else bind_err (ser_read f1 8) (\<lambda>(b, f2). Inr (le_nat b, f2)))"

definition BytesSerializer_serialize :: "bytes \<Rightarrow> bytes" where
  "BytesSerializer_serialize b = VarInt_serialize (length b) @ b"

definition BytesSerializer_deserialize :: "bytes \<Rightarrow> error + bytes \<times> bytes" where
  "BytesSerializer_deserialize f =
     bind_err (VarInt_deserialize f) (\<lambda>(l, f1). ser_read f1 l)"

record TelestaiMessage =
  magic :: bytes
  message :: bytes

text \<open>\<open>TelestaiMessage.__init__(message, magic)\<close>: both arguments are encoded as UTF-8.\<close>

definition TelestaiMessage_init :: "pyval \<Rightarrow> pyval \<Rightarrow> error + TelestaiMessage" where
  "TelestaiMessage_init msg mgc =
     bind_err (encode_utf8 msg) (\<lambda>m.
       bind_err (encode_utf8 mgc) (\<lambda>g. Inr \<lparr>magic = g, message = m\<rparr>))"

text \<open>The default magic, \<open>Telestai Signed Message:\<close> and a line feed, as code points.\<close>

definition default_magic :: pyval where
  "default_magic = PyStr (map (\<lambda>c. nat (of_char c)) ''Telestai Signed Message:'' @ [10])"

text \<open>\<open>stream_serialize\<close> writes to the stream \<open>f\<close>; the model returns what \<open>f\<close> then holds.\<close>

definition stream_serialize :: "TelestaiMessage \<Rightarrow> bytes \<Rightarrow> bytes" where
  "stream_serialize self f =
     f @ BytesSerializer_serialize (magic self) @ BytesSerializer_serialize (message self)"

text \<open>
  \<open>stream_deserialize\<close> reads two byte strings from the stream and passes them, as bytes
  objects, to the constructor; the result is the message and the rest of the stream.
\<close>

definition stream_deserialize :: "bytes \<Rightarrow> error + TelestaiMessage \<times> bytes" where
  "stream_deserialize f =
     bind_err (BytesSerializer_deserialize f) (\<lambda>(mgc, f1).
       bind_err (BytesSerializer_deserialize f1) (\<lambda>(msg, f2).
         bind_err (TelestaiMessage_init (PyBytes msg) (PyBytes mgc)) (\<lambda>m. Inr (m, f2))))"

definition GetHash :: "hash_lib \<Rightarrow> TelestaiMessage \<Rightarrow> bytes" where
  "GetHash H self = double_sha256 H (stream_serialize self [])"

subsection \<open>Base64 of the Python standard library\<close>

definition b64chars :: string where
  "b64chars = ''ABCDEFGHIJKLMNOPQRSTUVWXYZabcdefghijklmnopqrstuvwxyz0123456789+/''"

definition b64char :: "byte \<Rightarrow> char" where
  "b64char v = b64chars ! unat v"

fun b64encode :: "bytes \<Rightarrow> string" where
  "b64encode [] = []"
| "b64encode [a] =
     [b64char (drop_bit 2 a), b64char (push_bit 4 (a AND 3)), CHR ''='', CHR ''='']"
| "b64encode [a, b] =
     [b64char (drop_bit 2 a), b64char (push_bit 4 (a AND 3) OR drop_bit 4 b),
      b64char (push_bit 2 (b AND 15)), CHR ''='']"
| "b64encode (a # b # c # r) =
     [b64char (drop_bit 2 a), b64char (push_bit 4 (a AND 3) OR drop_bit 4 b),
      b64char (push_bit 2 (b AND 15) OR drop_bit 6 c), b64char (c AND 63)] @ b64encode r"

text \<open>
  \<open>binascii.a2b_base64\<close> in its default, non-strict mode, as \<open>base64.b64decode\<close> calls it.
  The state is the position in the current group of four (\<open>quad_pos\<close>), the bits left
  over (\<open>leftchar\<close>) and the number of padding characters seen in a row (\<open>pads\<close>). A
  character outside the alphabet is skipped; enough padding after at least two
  characters of a group ends the decoding; input that ends inside a group is an error.
\<close>

definition emit :: "byte \<Rightarrow> error + bytes \<Rightarrow> error + bytes" where
  "emit b r = bind_err r (\<lambda>bs. Inr (b # bs))"

fun a2b_base64 :: "nat \<Rightarrow> byte \<Rightarrow> nat \<Rightarrow> string \<Rightarrow> error + bytes" where
  "a2b_base64 quad_pos leftchar pads [] =
     (if quad_pos \<noteq> 0 then Inl Base64Error else Inr [])"
| "a2b_base64 quad_pos leftchar pads (c # cs) =
     (if c = CHR ''='' then
        (if quad_pos \<ge> 2 \<and> quad_pos + (pads + 1) \<ge> 4 then Inr []
         else a2b_base64 quad_pos leftchar (if quad_pos \<ge> 2 then pads + 1 else pads) cs)
      else
        (case index_of b64chars c of
           None \<Rightarrow> a2b_base64 quad_pos leftchar pads cs
         | Some v \<Rightarrow>
             let this_ch = (word_of_nat v :: byte) in
             if quad_pos = 0 then a2b_base64 1 this_ch 0 cs
             else if quad_pos = 1 then
               emit (push_bit 2 leftchar OR drop_bit 4 this_ch)
                 (a2b_base64 2 (this_ch AND 0x0f) 0 cs)
             else if quad_pos = 2 then
               emit (push_bit 4 leftchar OR drop_bit 2 this_ch)
                 (a2b_base64 3 (this_ch AND 0x03) 0 cs)
             else
               emit (push_bit 6 leftchar OR this_ch) (a2b_base64 0 0 0 cs)))"

definition b64decode :: "string \<Rightarrow> error + bytes" where
  "b64decode s = a2b_base64 0 0 0 s"

subsection \<open>Signing and verifying\<close>

text \<open>
  Modelled from the spec: \<open>CPubKey.recover_compact\<close> is not among the source files. Section
  4.4 has it take the header byte and the 64 signature bytes, fail with InvalidHeaderByte
  for a header outside 27..34, decode \<open>recovery_id = (header - 27) & 3\<close> and
  \<open>compressed = header >= 31\<close>, and fail with RecoveryFailed when the curve library finds
  no point. A signature that is not one header byte and 64 bytes is a ValueError.
\<close>

definition recover_compact :: "curve_lib \<Rightarrow> bytes \<Rightarrow> bytes \<Rightarrow> error + bytes" where
  "recover_compact ec hash sig =
     (if length sig \<noteq> 65 then Inl ValueError
      else
        let header = hd sig; sig64 = tl sig
        in if header < 27 \<or> header > 34 then Inl InvalidHeaderByte
           else
             let recovery_id = uint ((header - 27) AND 0x03);
                 compressed = (header \<ge> 31)
             in case ecdsa_recover ec sig64 hash recovery_id compressed of
                  None \<Rightarrow> Inl RecoveryFailed
                | Some pk \<Rightarrow> Inr pk)"

text \<open>\<open>str(address)\<close> of a base58 address object.\<close>

fun address_str :: "hash_lib \<Rightarrow> address \<Rightarrow> error + string" where
  "address_str H (P2SHTelestaiAddress self) = CBase58Data_str H self"
| "address_str H (P2PKHTelestaiAddress self) = CBase58Data_str H self"

text \<open>
  \<open>VerifyMessage(address, message, sig)\<close>; \<open>address\<close> is the string the caller passes (or
  the string form of the address object the caller passes). The function has no
  exception handler.
\<close>

definition VerifyMessage ::
  "chain_params \<Rightarrow> hash_lib \<Rightarrow> curve_lib \<Rightarrow> string \<Rightarrow> TelestaiMessage \<Rightarrow> string \<Rightarrow> error + bool"
where
  "VerifyMessage p H ec addr msg sig =
     bind_err (b64decode sig) (\<lambda>sig1.
       let hash = GetHash H msg
       in bind_err (recover_compact ec hash sig1) (\<lambda>pubkey.
            bind_err (P2PKH_from_pubkey p H ec pubkey False) (\<lambda>a.
              bind_err (address_str H a) (\<lambda>s. Inr (s = addr)))))"

definition SignMessage :: "hash_lib \<Rightarrow> curve_lib \<Rightarrow> CKey \<Rightarrow> TelestaiMessage \<Rightarrow> error + string" where
  "SignMessage H ec k msg =
     (let (sig, i) = CKey_sign_compact ec k (GetHash H msg);
          meta = 27 + i;
          meta = (if is_compressed k then meta + 4 else meta)
      in bind_err (bytes1 meta) (\<lambda>m. Inr (b64encode (m @ sig))))"

section \<open>Example instances\<close>

text \<open>
  Stand-ins for the external libraries, used to run the model on concrete inputs: a hash
  library with constant digests of the right lengths, and a curve library whose public
  key is the padded secret behind a marker byte and whose compact signature carries that
  padded secret, so that recovery returns the signer's public key.
\<close>

definition example_hashes :: hash_lib where
  "example_hashes = \<lparr>double_sha256 = (\<lambda>b. replicate 32 0x5a), Hash160 = (\<lambda>b. replicate 20 0xa5)\<rparr>"

definition pad32 :: "bytes \<Rightarrow> bytes" where
  "pad32 s = take 32 (s @ replicate 32 0)"

definition example_pubkey :: "bytes \<Rightarrow> bool \<Rightarrow> bytes" where
  "example_pubkey s c = (if c then 0x02 # pad32 s else 0x04 # pad32 s @ pad32 s)"

definition example_curve :: curve_lib where
  "example_curve = \<lparr>
     set_secretbytes_ok = (\<lambda>s. length s = 32),
     get_pubkey = example_pubkey,
     ecdsa_sign = (\<lambda>s h. pad32 s @ pad32 h),
     ecdsa_sign_compact = (\<lambda>s h. (pad32 s @ pad32 h, 1)),
     ecdsa_recover = (\<lambda>sig h i c. Some (example_pubkey (take 32 sig) c)),
     pubkey_fullyvalid = (\<lambda>pk. True) \<rparr>"

definition example_key :: "byte \<Rightarrow> CKey" where
  "example_key b =
     \<lparr>cec_secret = replicate 32 b, cec_compressed = True,
      pub = example_pubkey (replicate 32 b) True\<rparr>"

definition example_sighash :: sighash_fn where
  "example_sighash rs tx i t v =
     (if i < length (vin tx) then Inr (replicate 32 0x11) else Inl IndexError)"

definition example_tx :: transaction where
  "example_tx = \<lparr>
     tx_nVersion = 1,
     vin = [\<lparr>prevout = (replicate 32 0x22, 0), scriptSig = [], nSequence = 0xffffffff\<rparr>,
            \<lparr>prevout = (replicate 32 0x33, 1), scriptSig = [0x51], nSequence = 0xffffffff\<rparr>],
     vout = [\<lparr>nValue = 5000, scriptPubKey = [0x51]\<rparr>],
     nLockTime = 0 \<rparr>"

text \<open>A 2-of-3 multisig redeem script over the three example keys; its threshold is 2.\<close>

definition example_redeem_script :: redeem_script where
  "example_redeem_script = \<lparr>
     rs_bytes = 0x52 # pushdata (pub (example_key 1)) @ pushdata (pub (example_key 2))
                  @ pushdata (pub (example_key 3)) @ [0x53, 0xae],
     required = PyInt 2 \<rparr>"

text \<open>The message \<open>RL\<close> under the default magic.\<close>

definition example_message :: TelestaiMessage where
  "example_message =
     \<lparr>magic = [84, 101, 108, 101, 115, 116, 97, 105, 32, 83, 105, 103, 110, 101, 100, 32,
               77, 101, 115, 115, 97, 103, 101, 58, 10],
      message = [82, 76]\<rparr>"

section \<open>Network selection\<close>

text \<open>
  Claim C9. \<open>SelectParams name\<close> fails with the unknown-chain ValueError for every name
  other than mainnet, testnet and regtest, and then leaves the active parameters as they
  were; for each of the three names it succeeds and makes that chain's parameters the
  active ones.
\<close>

theorem SelectParams_spec:
  "(name \<notin> {''mainnet'', ''testnet'', ''regtest''} \<longrightarrow>
      fst (SelectParams name g) = Some ValueError \<and> params (snd (SelectParams name g)) = params g)
   \<and> fst (SelectParams ''mainnet'' g) = None
   \<and> params (snd (SelectParams ''mainnet'' g)) = MainParams
   \<and> fst (SelectParams ''testnet'' g) = None
   \<and> params (snd (SelectParams ''testnet'' g)) = TestNetParams
   \<and> fst (SelectParams ''regtest'' g) = None
   \<and> params (snd (SelectParams ''regtest'' g)) = RegTestParams"
  by (simp add: SelectParams_def SelectCoreParams_def)

theorem SelectParams_spec_witness:
  "''bitcoin'' \<notin> {''mainnet'', ''testnet'', ''regtest''}
   \<and> fst (SelectParams ''bitcoin'' \<lparr>params = TestNetParams, coreparams = CoreTestNet\<rparr>)
       = Some ValueError
   \<and> params (snd (SelectParams ''bitcoin'' \<lparr>params = TestNetParams, coreparams = CoreTestNet\<rparr>))
       = TestNetParams"
  using SelectParams_spec [of "''bitcoin''" "\<lparr>params = TestNetParams, coreparams = CoreTestNet\<rparr>"]
  by simp

section \<open>Multisig signing\<close>

lemma bind_err_Inl [simp]: "bind_err (Inl e) f = Inl e"
  by (simp add: bind_err_def)

lemma bind_err_Inr [simp]: "bind_err (Inr x) f = f x"
  by (simp add: bind_err_def)

text \<open>
  With an integer threshold the loop raises TypeError at its first key: \<open>len\<close> is applied
  to the threshold itself.
\<close>

lemma sign_loop_int:
  "required rs = PyInt n \<Longrightarrow> sign_loop ec h rs (k # ks) sigs = Inl TypeError"
  by simp

text \<open>
  If \<open>required\<close> were an object with a length \<open>r\<close>, the loop would sign with the keys in
  order and stop at \<open>r\<close> signatures, each followed by the hash-type byte.
\<close>

lemma sign_loop_sized:
  "py_len (required rs) = Inr r \<Longrightarrow>
   sign_loop ec h rs keys sigs =
     Inr (sigs @ map (\<lambda>k. CKey_sign ec k h @ [1]) (take (r - length sigs) keys))"
proof (induction keys arbitrary: sigs)
  case Nil
  then show ?case by simp
next
  case (Cons k ks)
  show ?case
  proof (cases "length sigs \<ge> r")
    case True
    with Cons.prems show ?thesis by simp
  next
    case False
    then obtain d where d: "r - length sigs = Suc d"
      by (cases "r - length sigs") auto
    then have d': "r - Suc (length sigs) = d" by simp
    from False Cons.prems Cons.IH [of "sigs @ [CKey_sign ec k h @ [1]]"] d d'
    show ?thesis by (simp add: bytes1_def SIGHASH_ALL_def)
  qed
qed

text \<open>
  Claim C3. For a 2-of-3 redeem script (threshold 2) and three supplied keys the claim
  has \<open>sign_with_multiple_keys\<close> return exactly two signatures. The code compares the
  number of signatures with \<open>len(redeem_script.required)\<close>; on the numeric threshold that
  raises TypeError, so the call returns no list at all.
\<close>

theorem sign_with_multiple_keys_2of3_raises:
  "sign_with_multiple_keys example_sighash example_curve example_tx
     [example_key 1, example_key 2, example_key 3] example_redeem_script SIGVERSION_BASE
   = Inl TypeError"
  by (simp add: sign_with_multiple_keys_def example_sighash_def example_tx_def
      example_redeem_script_def)

lemma length_pushdata: "length d < length (pushdata d)"
  by (simp add: pushdata_def)

text \<open>Each signature enters the script as a push of its push.\<close>

lemma append_sigs_eq:
  "\<forall>s\<in>set sigs. length (pushdata s) \<le> 0xffffffff \<Longrightarrow>
   append_sigs acc sigs = Inr (acc @ concat (map (\<lambda>s. pushdata (pushdata s)) sigs))"
proof (induction sigs arbitrary: acc)
  case Nil
  then show ?case by simp
next
  case (Cons sig sigs)
  from Cons.prems have a: "length (pushdata sig) \<le> 0xffffffff" by simp
  with length_pushdata [of sig] have b: "length sig \<le> 0xffffffff" by simp
  from Cons.prems have "\<forall>s\<in>set sigs. length (pushdata s) \<le> 0xffffffff" by simp
  then show ?case
    using a b by (simp add: Cons.IH encode_op_pushdata_def CScript_add_def)
qed

lemma multisig_scriptSig_eq:
  assumes "\<forall>s\<in>set sigs. length (pushdata s) \<le> 0xffffffff"
    and "length (pushdata (rs_bytes rs)) \<le> 0xffffffff"
  shows "multisig_scriptSig sigs rs =
     Inr (OP_0 # concat (map (\<lambda>s. pushdata (pushdata s)) sigs)
            @ pushdata (pushdata (rs_bytes rs)))"
proof -
  from assms(2) length_pushdata [of "rs_bytes rs"] have "length (rs_bytes rs) \<le> 0xffffffff"
    by simp
  with assms(2) show ?thesis
    by (simp add: multisig_scriptSig_def append_sigs_eq [OF assms(1)] encode_op_pushdata_def
        CScript_add_def)
qed

text \<open>On no transaction does \<open>apply_multisig_signatures\<close> return.\<close>

lemma apply_multisig_signatures_never_returns:
  "\<exists>e. apply_multisig_signatures self sigs rs = Inl e"
  by (cases "multisig_scriptSig sigs rs"; cases "vin self")
     (simp_all add: apply_multisig_signatures_def txin_set_scriptSig_def)

text \<open>
  Claim C8. The claim has \<open>apply_multisig_signatures\<close> build \<open>OP_0\<close>, a push of each
  signature and a push of the redeem script, and assign that to the first input. On a
  transaction with two inputs, the signatures \<open>30 01\<close> and \<open>30 02\<close> and the 2-of-3 redeem
  script, the script built is \<open>OP_0\<close> followed by a push of the push of each signature
  (\<open>03 02 30 01\<close>, not \<open>02 30 01\<close>) and a push of the push of the redeem script, and the
  assignment raises AttributeError, so the first input keeps its unlocking script.
\<close>

theorem apply_multisig_signatures_raises:
  "multisig_scriptSig [[0x30, 0x01], [0x30, 0x02]] example_redeem_script =
     Inr (OP_0 # [0x03, 0x02, 0x30, 0x01] @ [0x03, 0x02, 0x30, 0x02]
            @ pushdata (pushdata (rs_bytes example_redeem_script)))
   \<and> apply_multisig_signatures example_tx [[0x30, 0x01], [0x30, 0x02]] example_redeem_script
       = Inl AttributeError"
proof -
  have a: "\<forall>s\<in>set [[0x30, 0x01], [0x30, 0x02 :: byte]]. length (pushdata s) \<le> 0xffffffff"
    by (simp add: pushdata_def)
  have b: "length (pushdata (rs_bytes example_redeem_script)) \<le> 0xffffffff"
    by (simp add: example_redeem_script_def example_key_def example_pubkey_def pad32_def
        pushdata_def)
  have c: "multisig_scriptSig [[0x30, 0x01], [0x30, 0x02]] example_redeem_script =
     Inr (OP_0 # [0x03, 0x02, 0x30, 0x01] @ [0x03, 0x02, 0x30, 0x02]
            @ pushdata (pushdata (rs_bytes example_redeem_script)))"
    unfolding multisig_scriptSig_eq [OF a b] by (simp add: pushdata_def)
  show ?thesis
    by (simp add: c apply_multisig_signatures_def txin_set_scriptSig_def example_tx_def)
qed

section \<open>Message serialisation\<close>

lemma length_le_bytes [simp]: "length (le_bytes k n) = k"
  by (induction k arbitrary: n) simp_all

lemma le_nat_le_bytes: "n < 256 ^ k \<Longrightarrow> le_nat (le_bytes k n) = n"
proof (induction k arbitrary: n)
  case 0
  then show ?case by (simp add: le_nat_def)
next
  case (Suc k)
  have "n div 256 < 256 ^ k"
    using Suc.prems by (simp add: less_mult_imp_div_less mult.commute)
  then have "le_nat (le_bytes k (n div 256)) = n div 256"
    by (rule Suc.IH)
  moreover have "unat (word_of_nat (n mod 256) :: byte) = n mod 256"
    by (simp add: unat_of_nat take_bit_eq_mod)
  ultimately show ?case
    by (simp add: le_nat_def)
qed

text \<open>The length prefix and the byte-string serialiser read back what they wrote.\<close>

lemma VarInt_roundtrip:
  assumes n: "n < 2 ^ 64"
  shows "VarInt_deserialize (VarInt_serialize n @ f) = Inr (n, f)"
proof -
  have u: "n < 0xfd \<Longrightarrow> unat (word_of_nat n :: byte) = n \<and> (word_of_nat n :: byte) < 0xfd"
    by (simp add: unat_of_nat take_bit_eq_mod word_less_nat_alt)
  have l2: "n \<le> 0xffff \<Longrightarrow> le_nat (le_bytes 2 n) = n"
    by (rule le_nat_le_bytes) simp
  have l4: "n \<le> 0xffffffff \<Longrightarrow> le_nat (le_bytes 4 n) = n"
    by (rule le_nat_le_bytes) simp
  have l8: "le_nat (le_bytes 8 n) = n"
    using n by (intro le_nat_le_bytes) simp
  show ?thesis
    using u l2 l4 l8
    by (auto simp: VarInt_deserialize_def VarInt_serialize_def ser_read_def
        simp del: le_bytes.simps)
qed

lemma BytesSerializer_roundtrip:
  "length b < 2 ^ 64 \<Longrightarrow>
   BytesSerializer_deserialize (BytesSerializer_serialize b @ f) = Inr (b, f)"
  by (simp add: BytesSerializer_deserialize_def BytesSerializer_serialize_def VarInt_roundtrip
      ser_read_def)

text \<open>The constructor encodes its arguments, and a bytes object has no \<open>encode\<close>.\<close>

lemma TelestaiMessage_init_bytes:
  "TelestaiMessage_init (PyBytes a) (PyBytes b) = Inl AttributeError"
  by (simp add: TelestaiMessage_init_def)

text \<open>On no stream does \<open>stream_deserialize\<close> return a message.\<close>

lemma stream_deserialize_never_returns: "\<exists>e. stream_deserialize f = Inl e"
  by (cases "BytesSerializer_deserialize f")
     (auto simp: stream_deserialize_def TelestaiMessage_init_bytes bind_err_def
           split: sum.splits prod.splits)

text \<open>
  On the serialisation of any message both byte strings are read back, and the
  constructor then raises.
\<close>

lemma stream_roundtrip_raises:
  "length (magic m) < 2 ^ 64 \<Longrightarrow> length (message m) < 2 ^ 64 \<Longrightarrow>
   stream_deserialize (stream_serialize m []) = Inl AttributeError"
  using BytesSerializer_roundtrip [of "message m" "[]"]
  by (simp add: stream_deserialize_def stream_serialize_def BytesSerializer_roundtrip
      TelestaiMessage_init_bytes)

text \<open>
  Claim C10. The claim has \<open>stream_deserialize\<close> return, on the bytes written by
  \<open>stream_serialize\<close>, a message equal to the one serialised. For the message
  \<open>TelestaiMessage("")\<close> with the default magic, the constructor succeeds, and reading its
  serialisation back raises AttributeError: \<open>stream_deserialize\<close> hands the two byte
  strings it read to the constructor, which calls \<open>encode\<close> on them.
\<close>

theorem TelestaiMessage_roundtrip_raises:
  "TelestaiMessage_init (PyStr []) default_magic =
     Inr \<lparr>magic = [84, 101, 108, 101, 115, 116, 97, 105, 32, 83, 105, 103, 110, 101, 100, 32,
                   77, 101, 115, 115, 97, 103, 101, 58, 10],
          message = []\<rparr>
   \<and> stream_deserialize
       (stream_serialize
          \<lparr>magic = [84, 101, 108, 101, 115, 116, 97, 105, 32, 83, 105, 103, 110, 101, 100, 32,
                    77, 101, 115, 115, 97, 103, 101, 58, 10],
           message = []\<rparr> [])
     = Inl AttributeError"
  by (simp add: TelestaiMessage_init_def default_magic_def utf8_char_def
      stream_deserialize_def stream_serialize_def BytesSerializer_deserialize_def
      BytesSerializer_serialize_def VarInt_deserialize_def VarInt_serialize_def ser_read_def)

section \<open>Base64\<close>

lemma index_of_nth: "distinct xs \<Longrightarrow> n < length xs \<Longrightarrow> index_of xs (xs ! n) = Some n"
proof (induction xs arbitrary: n)
  case Nil
  then show ?case by simp
next
  case (Cons y ys)
  show ?case
  proof (cases n)
    case 0
    then show ?thesis by simp
  next
    case (Suc m)
    with Cons.prems have "ys ! m \<in> set ys" "y \<notin> set ys" by auto
    then have "ys ! m \<noteq> y" by auto
    with Cons Suc show ?thesis by simp
  qed
qed

lemma b64chars_distinct: "distinct b64chars"
  by (simp add: b64chars_def)

lemma b64chars_length: "length b64chars = 64"
  by (simp add: b64chars_def)

lemma b64chars_no_pad: "CHR ''='' \<notin> set b64chars"
  by (simp add: b64chars_def)

lemma b64char_index:
  assumes "unat v < 64"
  shows "index_of b64chars (b64char v) = Some (unat v) \<and> b64char v \<noteq> CHR ''=''"
proof -
  have "b64char v \<in> set b64chars"
    using assms by (simp add: b64char_def b64chars_length)
  then have "b64char v \<noteq> CHR ''=''"
    using b64chars_no_pad by metis
  moreover have "index_of b64chars (b64char v) = Some (unat v)"
    unfolding b64char_def
    using assms by (intro index_of_nth b64chars_distinct) (simp add: b64chars_length)
  ultimately show ?thesis by simp
qed

lemma sextet_lt: "take_bit 6 (x :: byte) = x \<Longrightarrow> unat x < 64"
proof -
  assume "take_bit 6 x = x"
  then have "unat x = take_bit 6 (unat x)"
    by (metis unsigned_take_bit_eq)
  also have "\<dots> < 2 ^ 6" by (rule take_bit_nat_less_exp)
  finally show ?thesis by simp
qed

lemma masks: "(3::byte) = mask 2" "(15::byte) = mask 4" "(63::byte) = mask 6"
  by (simp_all add: mask_eq_exp_minus_1)

lemma sextet_bounds:
  fixes a b c :: byte
  shows "unat (drop_bit 2 a) < 64"
    and "unat (push_bit 4 (a AND 3) OR drop_bit 4 b) < 64"
    and "unat (push_bit 2 (b AND 15) OR drop_bit 6 c) < 64"
    and "unat (c AND 63) < 64"
    and "unat (push_bit 4 (a AND 3)) < 64"
    and "unat (push_bit 2 (b AND 15)) < 64"
  unfolding masks
  by (rule sextet_lt, rule bit_word_eqI, auto simp: bit_simps dest: bit_imp_le_length)+

lemma shift_back:
  "2 \<le> n \<Longrightarrow> Suc (Suc (n - 2)) = n"
  "4 \<le> n \<Longrightarrow> Suc (Suc (Suc (Suc (n - 4)))) = n"
  "6 \<le> n \<Longrightarrow> Suc (Suc (Suc (Suc (Suc (Suc (n - 6)))))) = n"
  by simp_all

lemma regroup1:
  fixes a b :: byte
  shows "push_bit 2 (drop_bit 2 a) OR drop_bit 4 (push_bit 4 (a AND 3) OR drop_bit 4 b) = a"
  unfolding masks
  apply (rule bit_word_eqI)
  subgoal for n
    by (cases "2 \<le> n"; cases "4 \<le> n"; cases "6 \<le> n")
       (auto simp: bit_simps shift_back dest: bit_imp_le_length)
  done

lemma regroup2:
  fixes a b c :: byte
  shows "push_bit 4 ((push_bit 4 (a AND 3) OR drop_bit 4 b) AND 15)
           OR drop_bit 2 (push_bit 2 (b AND 15) OR drop_bit 6 c) = b"
  unfolding masks
  apply (rule bit_word_eqI)
  subgoal for n
    by (cases "2 \<le> n"; cases "4 \<le> n"; cases "6 \<le> n")
       (auto simp: bit_simps shift_back dest: bit_imp_le_length)
  done

lemma regroup3:
  fixes b c :: byte
  shows "push_bit 6 ((push_bit 2 (b AND 15) OR drop_bit 6 c) AND 3) OR (c AND 63) = c"
  unfolding masks
  apply (rule bit_word_eqI)
  subgoal for n
    by (cases "2 \<le> n"; cases "4 \<le> n"; cases "6 \<le> n")
       (auto simp: bit_simps shift_back dest: bit_imp_le_length)
  done

lemma regroup4:
  fixes a :: byte
  shows "push_bit 2 (drop_bit 2 a) OR drop_bit 4 (push_bit 4 (a AND 3)) = a"
  unfolding masks
  apply (rule bit_word_eqI)
  subgoal for n
    by (cases "2 \<le> n"; cases "4 \<le> n"; cases "6 \<le> n")
       (auto simp: bit_simps shift_back dest: bit_imp_le_length)
  done

lemma regroup5:
  fixes a b :: byte
  shows "push_bit 4 ((push_bit 4 (a AND 3) OR drop_bit 4 b) AND 15)
           OR drop_bit 2 (push_bit 2 (b AND 15)) = b"
  unfolding masks
  apply (rule bit_word_eqI)
  subgoal for n
    by (cases "2 \<le> n"; cases "4 \<le> n"; cases "6 \<le> n")
       (auto simp: bit_simps shift_back dest: bit_imp_le_length)
  done


lemma a2b_char:
  assumes "unat v < 64"
  shows "a2b_base64 q l p (b64char v # cs) =
     (if q = 0 then a2b_base64 1 v 0 cs
      else if q = 1 then emit (push_bit 2 l OR drop_bit 4 v) (a2b_base64 2 (v AND 0x0f) 0 cs)
      else if q = 2 then emit (push_bit 4 l OR drop_bit 2 v) (a2b_base64 3 (v AND 0x03) 0 cs)
      else emit (push_bit 6 l OR v) (a2b_base64 0 0 0 cs))"
  using b64char_index [OF assms] by simp

lemma emit_Inr [simp]: "emit b (Inr bs) = Inr (b # bs)"
  by (simp add: emit_def)

lemma a2b_quad:
  assumes "unat v1 < 64" "unat v2 < 64" "unat v3 < 64" "unat v4 < 64"
  shows "a2b_base64 0 l 0 (b64char v1 # b64char v2 # b64char v3 # b64char v4 # cs) =
     emit (push_bit 2 v1 OR drop_bit 4 v2)
       (emit (push_bit 4 (v2 AND 15) OR drop_bit 2 v3)
          (emit (push_bit 6 (v3 AND 3) OR v4) (a2b_base64 0 0 0 cs)))"
  by (simp add: a2b_char assms del: a2b_base64.simps)

lemma a2b_pair_pad:
  assumes "unat v1 < 64" "unat v2 < 64"
  shows "a2b_base64 0 l 0 [b64char v1, b64char v2, CHR ''='', CHR ''=''] =
     Inr [push_bit 2 v1 OR drop_bit 4 v2]"
  by (simp add: a2b_char assms del: a2b_base64.simps) simp

lemma a2b_triple_pad:
  assumes "unat v1 < 64" "unat v2 < 64" "unat v3 < 64"
  shows "a2b_base64 0 l 0 [b64char v1, b64char v2, b64char v3, CHR ''=''] =
     Inr [push_bit 2 v1 OR drop_bit 4 v2, push_bit 4 (v2 AND 15) OR drop_bit 2 v3]"
  by (simp add: a2b_char assms del: a2b_base64.simps) simp

lemma b64_roundtrip_aux: "a2b_base64 0 l 0 (b64encode bs) = Inr bs"
proof (induction bs arbitrary: l rule: b64encode.induct)
  case 1
  show ?case by simp
next
  case (2 a)
  show ?case
    by (simp only: b64encode.simps a2b_pair_pad [OF sextet_bounds(1) sextet_bounds(5)] regroup4)
next
  case (3 a b)
  show ?case
    by (simp only: b64encode.simps
        a2b_triple_pad [OF sextet_bounds(1) sextet_bounds(2) sextet_bounds(6)]
        regroup1 regroup5)
next
  case (4 a b c r)
  show ?case
    by (simp only: b64encode.simps append.simps
        a2b_quad [OF sextet_bounds(1) sextet_bounds(2) sextet_bounds(3) sextet_bounds(4)]
        regroup1 regroup2 regroup3 "4.IH" emit_Inr)
qed

lemma b64decode_b64encode: "b64decode (b64encode bs) = Inr bs"
  by (simp add: b64decode_def b64_roundtrip_aux)

section \<open>Signing and verifying messages\<close>

lemma SignMessage_value:
  assumes "CKey_sign_compact ec k (GetHash H msg) = (sig, i)" and "0 \<le> i" and "i \<le> 3"
  shows "SignMessage H ec k msg =
     Inr (b64encode (word_of_int (27 + i + (if is_compressed k then 4 else 0)) # sig))"
  using assms by (simp add: SignMessage_def bytes1_def)

text \<open>
  For a recovery id in 0..3 the header byte lies in 27..34; the recovery id is its offset
  from 27 taken modulo 4, and it is at least 31 exactly for a compressed key.
\<close>

lemma header_cases:
  assumes "0 \<le> i" "i \<le> 3"
  shows "\<not> (word_of_int (27 + i + (if c then 4 else 0)) :: byte) < 27
     \<and> \<not> (word_of_int (27 + i + (if c then 4 else 0)) :: byte) > 34
     \<and> uint (((word_of_int (27 + i + (if c then 4 else 0)) :: byte) - 27) AND 0x03) = i
     \<and> ((word_of_int (27 + i + (if c then 4 else 0)) :: byte) \<ge> 31) = c"
proof -
  from assms have "i = 0 \<or> i = 1 \<or> i = 2 \<or> i = 3" by auto
  then show ?thesis by (cases c) auto
qed

lemma recover_ok:
  assumes "length sig = 64" "0 \<le> i" "i \<le> 3"
    and "ecdsa_recover ec sig h i c = Some pk"
  shows "recover_compact ec h (word_of_int (27 + i + (if c then 4 else 0)) # sig) = Inr pk"
proof -
  define hb :: byte where "hb = word_of_int (27 + i + (if c then 4 else 0))"
  have hb: "\<not> hb < 27" "\<not> hb > 34" "uint ((hb - 27) AND 0x03) = i" "(hb \<ge> 31) = c"
    using header_cases [OF assms(2,3), of c] unfolding hb_def by blast+
  have "recover_compact ec h (hb # sig) = Inr pk"
    using assms(1,4) hb by (simp add: recover_compact_def Let_def)
  then show ?thesis unfolding hb_def .
qed

lemma length_pad32 [simp]: "length (pad32 s) = 32"
  by (simp add: pad32_def)

lemma pad32_idem [simp]: "pad32 (pad32 s @ t) = pad32 s"
  by (simp add: pad32_def)

lemma example_key_compressed: "is_compressed (example_key b)"
  by (simp add: is_compressed_def example_key_def example_pubkey_def)

lemma example_sign_compact:
  "CKey_sign_compact example_curve (example_key b) h = (pad32 (replicate 32 b) @ pad32 h, 1)"
  by (simp add: CKey_sign_compact_def example_curve_def example_key_def)

lemma pad32_pad32 [simp]: "pad32 (pad32 s) = pad32 s"
  by (simp add: pad32_def)

lemma example_recover:
  "ecdsa_recover example_curve (pad32 (replicate 32 b) @ pad32 h) h 1 (is_compressed (example_key b))
     = Some (pub (example_key b))"
  using example_key_compressed [of b]
  by (simp add: example_curve_def example_key_def example_pubkey_def)

lemma example_from_pubkey:
  "P2PKH_from_pubkey MainParams example_hashes example_curve (pub (example_key b)) False =
     Inr (P2PKHTelestaiAddress \<lparr>nVersion = 66, raw = replicate 20 0xa5\<rparr>)"
  by (simp add: P2PKH_from_pubkey_def P2PKH_from_bytes_def CBase58TelestaiAddress_from_bytes_def
      CBase58Data_from_bytes_def base58_prefix_def MainParams_def example_curve_def
      example_hashes_def)

lemma example_address_str:
  "address_str example_hashes (P2PKHTelestaiAddress \<lparr>nVersion = 66, raw = replicate 20 0xa5\<rparr>) =
     Inr (b58encode (66 # replicate 20 0xa5 @ replicate 4 0x5a))"
  by (simp add: CBase58Data_str_def bytes1_def example_hashes_def Let_def)

text \<open>
  Claim C7. When \<open>sign_compact\<close> on the message digest returns the signature bytes \<open>sig\<close>
  and a recovery id \<open>i\<close> in 0..3, \<open>SignMessage\<close> returns the base64 encoding of the header
  byte followed by \<open>sig\<close>, where the header byte is \<open>27 + i\<close>, plus 4 exactly when the key
  is compressed.
\<close>

theorem SignMessage_header:
  assumes "CKey_sign_compact ec k (GetHash H msg) = (sig, i)" and "0 \<le> i" and "i \<le> 3"
  shows "SignMessage H ec k msg =
     Inr (b64encode (word_of_int (27 + i + (if is_compressed k then 4 else 0)) # sig))"
  using assms by (rule SignMessage_value)

theorem SignMessage_header_witness:
  "CKey_sign_compact example_curve (example_key 1) (GetHash example_hashes example_message)
     = (pad32 (replicate 32 1) @ pad32 (GetHash example_hashes example_message), 1)
   \<and> SignMessage example_hashes example_curve (example_key 1) example_message =
       Inr (b64encode (32 # pad32 (replicate 32 1) @ pad32 (GetHash example_hashes example_message)))"
proof -
  have a: "CKey_sign_compact example_curve (example_key 1) (GetHash example_hashes example_message)
     = (pad32 (replicate 32 1) @ pad32 (GetHash example_hashes example_message), 1)"
    by (rule example_sign_compact)
  have b: "(0::int) \<le> 1" and c: "(1::int) \<le> 3" by simp_all
  from a SignMessage_header [OF a b c] show ?thesis
    by (simp add: example_key_compressed)
qed

text \<open>
  Claim C2. Let the curve library be correct on this key and message: \<open>sign_compact\<close>
  returns 64 signature bytes and a recovery id in 0..3 from which recovery gives the
  key's public key. Then for the address \<open>a\<close> that \<open>P2PKHTelestaiAddress.from_pubkey\<close>
  derives from the key's public key, with string form \<open>addr\<close>, \<open>SignMessage\<close> returns a
  signature and \<open>VerifyMessage\<close> on \<open>addr\<close>, the message and that signature returns true.
\<close>

theorem SignMessage_VerifyMessage:
  assumes "CKey_sign_compact ec k (GetHash H msg) = (sig, i)"
    and "length sig = 64" and "0 \<le> i" and "i \<le> 3"
    and "ecdsa_recover ec sig (GetHash H msg) i (is_compressed k) = Some (pub k)"
    and "P2PKH_from_pubkey p H ec (pub k) False = Inr a"
    and "address_str H a = Inr addr"
  shows "SignMessage H ec k msg =
           Inr (b64encode (word_of_int (27 + i + (if is_compressed k then 4 else 0)) # sig))
     \<and> VerifyMessage p H ec addr msg
           (b64encode (word_of_int (27 + i + (if is_compressed k then 4 else 0)) # sig))
         = Inr True"
  using SignMessage_value [OF assms(1,3,4)] recover_ok [OF assms(2,3,4,5)] assms(6,7)
  by (simp add: VerifyMessage_def b64decode_b64encode Let_def)

theorem SignMessage_VerifyMessage_witness:
  "SignMessage example_hashes example_curve (example_key 1) example_message =
     Inr (b64encode (32 # pad32 (replicate 32 1) @ pad32 (GetHash example_hashes example_message)))
   \<and> VerifyMessage MainParams example_hashes example_curve
       (b58encode (66 # replicate 20 0xa5 @ replicate 4 0x5a)) example_message
       (b64encode (32 # pad32 (replicate 32 1) @ pad32 (GetHash example_hashes example_message)))
     = Inr True"
proof -
  have a: "CKey_sign_compact example_curve (example_key 1) (GetHash example_hashes example_message)
     = (pad32 (replicate 32 1) @ pad32 (GetHash example_hashes example_message), 1)"
    by (rule example_sign_compact)
  have l: "length (pad32 (replicate 32 (1::byte)) @ pad32 (GetHash example_hashes example_message))
     = 64"
    by simp
  have b: "(0::int) \<le> 1" and c: "(1::int) \<le> 3" by simp_all
  from SignMessage_VerifyMessage
    [OF a l b c example_recover example_from_pubkey example_address_str]
  show ?thesis
    by (simp add: example_key_compressed)
qed

text \<open>
  Claim C4, as stated, fails: on the signature string \<open>a\<close>, which is not valid base64,
  \<open>VerifyMessage\<close> raises the decoder's error; it does not return false.
\<close>

theorem VerifyMessage_raises_on_bad_base64:
  "VerifyMessage MainParams example_hashes example_curve ''RL5dKQv7ZZYrqSYXNVgy2HvncjcQf8G6at''
     example_message ''a'' = Inl Base64Error"
  by (simp add: VerifyMessage_def b64decode_def b64chars_def)

text \<open>
  Claim C4, amended. \<open>VerifyMessage\<close> has no exception handler: an error of the base64
  decoding, of the public-key recovery, of the address derivation or of the address's
  string conversion is the outcome of the call, and only when all four succeed is the
  outcome a boolean, namely whether the derived address string equals the given one.
\<close>

theorem VerifyMessage_propagates:
  "(b64decode sig = Inl e \<longrightarrow> VerifyMessage p H ec addr msg sig = Inl e)
   \<and> (b64decode sig = Inr s \<and> recover_compact ec (GetHash H msg) s = Inl e
        \<longrightarrow> VerifyMessage p H ec addr msg sig = Inl e)
   \<and> (b64decode sig = Inr s \<and> recover_compact ec (GetHash H msg) s = Inr pk
        \<and> P2PKH_from_pubkey p H ec pk False = Inl e
        \<longrightarrow> VerifyMessage p H ec addr msg sig = Inl e)
   \<and> (b64decode sig = Inr s \<and> recover_compact ec (GetHash H msg) s = Inr pk
        \<and> P2PKH_from_pubkey p H ec pk False = Inr a \<and> address_str H a = Inl e
        \<longrightarrow> VerifyMessage p H ec addr msg sig = Inl e)
   \<and> (b64decode sig = Inr s \<and> recover_compact ec (GetHash H msg) s = Inr pk
        \<and> P2PKH_from_pubkey p H ec pk False = Inr a \<and> address_str H a = Inr st
        \<longrightarrow> VerifyMessage p H ec addr msg sig = Inr (st = addr))"
  by (simp add: VerifyMessage_def Let_def)

theorem VerifyMessage_propagates_witness:
  "b64decode (b64encode (replicate 65 0)) = Inr (replicate 65 0)
   \<and> recover_compact example_curve (GetHash example_hashes example_message) (replicate 65 0)
       = Inl InvalidHeaderByte
   \<and> VerifyMessage MainParams example_hashes example_curve
       (b58encode (66 # replicate 20 0xa5 @ replicate 4 0x5a)) example_message
       (b64encode (replicate 65 0)) = Inl InvalidHeaderByte"
proof -
  have a: "b64decode (b64encode (replicate 65 0)) = Inr (replicate 65 0)"
    by (rule b64decode_b64encode)
  have b: "recover_compact example_curve (GetHash example_hashes example_message) (replicate 65 0)
       = Inl InvalidHeaderByte"
    by (simp add: recover_compact_def Let_def)
  from a b VerifyMessage_propagates [of "b64encode (replicate 65 0)" InvalidHeaderByte MainParams
      example_hashes example_curve "b58encode (66 # replicate 20 0xa5 @ replicate 4 0x5a)"
      example_message "replicate 65 0"]
  show ?thesis by blast
qed

section \<open>Addresses and scripts\<close>

lemma prefix_main [simp]:
  "base58_prefix MainParams ''PUBKEY_ADDR'' = Inr 66"
  "base58_prefix MainParams ''SCRIPT_ADDR'' = Inr 127"
  "base58_prefix MainParams ''SECRET_KEY'' = Inr 128"
  by (simp_all add: base58_prefix_def MainParams_def)

lemma prefix_test [simp]:
  "base58_prefix TestNetParams ''PUBKEY_ADDR'' = Inr 111"
  "base58_prefix TestNetParams ''SCRIPT_ADDR'' = Inr 196"
  "base58_prefix TestNetParams ''SECRET_KEY'' = Inr 239"
  by (simp_all add: base58_prefix_def TestNetParams_def)

lemma prefix_reg [simp]:
  "base58_prefix RegTestParams ''PUBKEY_ADDR'' = Inr 111"
  "base58_prefix RegTestParams ''SCRIPT_ADDR'' = Inr 196"
  "base58_prefix RegTestParams ''SECRET_KEY'' = Inr 239"
  by (simp_all add: base58_prefix_def RegTestParams_def)

lemma from_bytes_P2SH:
  assumes "base58_prefix p ''SCRIPT_ADDR'' = Inr sa"
  shows "CBase58TelestaiAddress_from_bytes p d sa = Inr (P2SHTelestaiAddress \<lparr>nVersion = sa, raw = d\<rparr>)"
  using assms by (simp add: CBase58TelestaiAddress_from_bytes_def CBase58Data_from_bytes_def)

lemma from_bytes_P2PKH:
  assumes "base58_prefix p ''SCRIPT_ADDR'' = Inr sa" "base58_prefix p ''PUBKEY_ADDR'' = Inr pa" "pa \<noteq> sa"
  shows "CBase58TelestaiAddress_from_bytes p d pa = Inr (P2PKHTelestaiAddress \<lparr>nVersion = pa, raw = d\<rparr>)"
  using assms by (simp add: CBase58TelestaiAddress_from_bytes_def CBase58Data_from_bytes_def)

lemma P2SH_script:
  assumes "base58_prefix p ''SCRIPT_ADDR'' = Inr sa" "length h = 20"
  shows "to_scriptPubKey p (P2SHTelestaiAddress \<lparr>nVersion = sa, raw = h\<rparr>) = Inr (OP_HASH160 # 0x14 # h @ [OP_EQUAL])"
  using assms by (simp add: P2SH_to_scriptPubKey_def encode_op_pushdata_def pushdata_def)

lemma P2PKH_script:
  assumes "base58_prefix p ''PUBKEY_ADDR'' = Inr pa" "length h = 20"
  shows "to_scriptPubKey p (P2PKHTelestaiAddress \<lparr>nVersion = pa, raw = h\<rparr>) =
    Inr (OP_DUP # OP_HASH160 # 0x14 # h @ [OP_EQUALVERIFY, OP_CHECKSIG])"
  using assms by (simp add: P2PKH_to_scriptPubKey_def encode_op_pushdata_def pushdata_def)

lemma is_p2sh_template: "length h = 20 \<Longrightarrow> is_p2sh (OP_HASH160 # 0x14 # h @ [OP_EQUAL])"
  by (simp add: is_p2sh_def nth_append)

lemma slice_p2sh: "length h = 20 \<Longrightarrow> pyslice 2 22 (a # b # h @ t) = h"
  by (simp add: pyslice_def)

lemma slice_p2pkh: "length h = 20 \<Longrightarrow> pyslice 3 23 (a # b # c # h @ t) = h"
  by (simp add: pyslice_def)


lemma canonicalize_p2pkh:
  assumes "length h = 20"
  shows "canonicalize (OP_DUP # OP_HASH160 # 0x14 # h @ [OP_EQUALVERIFY, OP_CHECKSIG]) =
     Inr (OP_DUP # OP_HASH160 # 0x14 # h @ [OP_EQUALVERIFY, OP_CHECKSIG])"
  using assms
  by (simp add: OP_DUP_def OP_HASH160_def OP_EQUALVERIFY_def OP_CHECKSIG_def OP_PUSHDATA4_def
      OP_PUSHDATA1_def OP_0_def read_push_size_def encode_op_pushdata_def pushdata_def)

lemma or_else_simps [simp]:
  "or_else (Inr x) b = Inr x"
  "or_else (Inl CTelestaiAddressError) b = b"
  by (simp_all add: or_else_def)

lemma roundtrip_P2SH:
  assumes "base58_prefix p ''SCRIPT_ADDR'' = Inr sa" "length h = 20"
  shows "CTelestaiAddress_from_scriptPubKey p H ec (OP_HASH160 # 0x14 # h @ [OP_EQUAL]) =
     Inr (P2SHTelestaiAddress \<lparr>nVersion = sa, raw = h\<rparr>)"
  using assms
  by (simp add: CTelestaiAddress_from_scriptPubKey_def CBase58TelestaiAddress_from_scriptPubKey_def
      P2SH_from_scriptPubKey_def is_p2sh_template slice_p2sh P2SH_from_bytes_def from_bytes_P2SH)

lemma roundtrip_P2PKH:
  assumes "base58_prefix p ''SCRIPT_ADDR'' = Inr sa" "base58_prefix p ''PUBKEY_ADDR'' = Inr pa"
    "pa \<noteq> sa" "length h = 20"
  shows "CTelestaiAddress_from_scriptPubKey p H ec
           (OP_DUP # OP_HASH160 # 0x14 # h @ [OP_EQUALVERIFY, OP_CHECKSIG]) =
     Inr (P2PKHTelestaiAddress \<lparr>nVersion = pa, raw = h\<rparr>)"
proof -
  define s where "s = OP_DUP # OP_HASH160 # 0x14 # h @ [OP_EQUALVERIFY, OP_CHECKSIG]"
  have np: "\<not> is_p2sh s" using assms(4) by (simp add: is_p2sh_def s_def)
  have nk: "\<not> is_witness_v0_keyhash s"
    using assms(4) by (simp add: is_witness_v0_keyhash_def s_def)
  have nn: "\<not> is_witness_v0_nested_keyhash s"
    using assms(4) by (simp add: is_witness_v0_nested_keyhash_def s_def)
  have t: "length s = 25" "s ! 0 = OP_DUP" "s ! 1 = OP_HASH160" "s ! 2 = 0x14"
      "s ! 23 = OP_EQUALVERIFY" "s ! 24 = OP_CHECKSIG"
    using assms(4) by (simp_all add: nth_append s_def)
  have c: "canonicalize s = Inr s"
    unfolding s_def using assms(4) by (rule canonicalize_p2pkh)
  have sl: "pyslice 3 23 s = h"
    unfolding s_def using assms(4) by (rule slice_p2pkh)
  have pk: "P2PKH_from_scriptPubKey p H ec s True True =
      Inr (P2PKHTelestaiAddress \<lparr>nVersion = pa, raw = h\<rparr>)"
    unfolding P2PKH_from_scriptPubKey_def
    using nk nn t assms(1,2,3)
    by (simp add: c sl P2PKH_from_bytes_def from_bytes_P2PKH)
  have "CTelestaiAddress_from_scriptPubKey p H ec s =
      Inr (P2PKHTelestaiAddress \<lparr>nVersion = pa, raw = h\<rparr>)"
    using np pk
    by (simp add: CTelestaiAddress_from_scriptPubKey_def
        CBase58TelestaiAddress_from_scriptPubKey_def P2SH_from_scriptPubKey_def)
  then show ?thesis unfolding s_def .
qed


lemma read_push_size_bound:
  "read_push_size opcode rest = Inr (ds, nl) \<Longrightarrow> ds \<le> 0xffffffff"
proof -
  have b: "unat x \<le> 255" for x :: byte
  proof -
    have "(unsigned x :: nat) < 2 ^ LENGTH(8)" by (rule unsigned_less)
    then show ?thesis by simp
  qed
  assume "read_push_size opcode rest = Inr (ds, nl)"
  then show ?thesis
    using b [of opcode] b [of "rest ! 0"] b [of "rest ! 1"] b [of "rest ! 2"] b [of "rest ! 3"]
    by (auto simp: read_push_size_def split: if_splits)
qed

lemma canonicalize_error: "canonicalize s = Inl e \<Longrightarrow> e = CScriptInvalidError"
proof (induction s arbitrary: e rule: canonicalize.induct)
  case 1
  then show ?case by simp
next
  case (2 opcode rest)
  show ?case
  proof (cases "opcode > OP_PUSHDATA4")
    case True
    with 2 show ?thesis by (auto split: sum.splits)
  next
    case False
    show ?thesis
    proof (cases "read_push_size opcode rest")
      case (Inl x)
      with False "2.prems" show ?thesis
        by (auto simp: read_push_size_def split: if_splits)
    next
      case (Inr r)
      obtain ds nl where r: "r = (ds, nl)" by (cases r)
      have bound: "length (take ds (drop nl rest)) \<le> 0xffffffff"
        using read_push_size_bound [of opcode rest ds nl] Inr r by simp
      from False Inr r "2.prems" "2.IH"(2) [OF False Inr r [symmetric]] bound show ?thesis
        by (auto simp: encode_op_pushdata_def split: sum.splits if_splits)
    qed
  qed
qed


lemma known_params_prefixes:
  assumes "p \<in> {MainParams, TestNetParams, RegTestParams}"
    and "base58_prefix p ''PUBKEY_ADDR'' = Inr pa" and "base58_prefix p ''SCRIPT_ADDR'' = Inr sa"
  shows "pa \<noteq> sa"
  using assms by auto

lemma P2PKH_from_bytes_Some:
  assumes "base58_prefix p ''SCRIPT_ADDR'' = Inr sa" "base58_prefix p ''PUBKEY_ADDR'' = Inr pa"
    "pa \<noteq> sa"
  shows "P2PKH_from_bytes p d (Some pa) = Inr (P2PKHTelestaiAddress \<lparr>nVersion = pa, raw = d\<rparr>)"
    and "P2PKH_from_bytes p d None = Inr (P2PKHTelestaiAddress \<lparr>nVersion = pa, raw = d\<rparr>)"
  using assms by (simp_all add: P2PKH_from_bytes_def from_bytes_P2PKH)

lemma P2SH_from_bytes_Some:
  assumes "base58_prefix p ''SCRIPT_ADDR'' = Inr sa"
  shows "P2SH_from_bytes p d (Some sa) = Inr (P2SHTelestaiAddress \<lparr>nVersion = sa, raw = d\<rparr>)"
  using assms by (simp add: P2SH_from_bytes_def from_bytes_P2SH)

lemma P2PKH_from_scriptPubKey_table:
  assumes "base58_prefix p ''SCRIPT_ADDR'' = Inr sa" "base58_prefix p ''PUBKEY_ADDR'' = Inr pa"
    "pa \<noteq> sa"
  shows "P2PKH_from_scriptPubKey p H ec s True bare =
     (case canonicalize s of
        Inl e \<Rightarrow> Inl CTelestaiAddressError
      | Inr c \<Rightarrow>
          if is_witness_v0_keyhash c then
            Inr (P2PKHTelestaiAddress \<lparr>nVersion = pa, raw = pyslice 2 22 c\<rparr>)
          else if is_witness_v0_nested_keyhash c then
            Inr (P2PKHTelestaiAddress \<lparr>nVersion = pa, raw = pyslice 3 23 c\<rparr>)
          else if length c = 25 \<and> c ! 0 = OP_DUP \<and> c ! 1 = OP_HASH160 \<and> c ! 2 = 0x14
                  \<and> c ! 23 = OP_EQUALVERIFY \<and> c ! 24 = OP_CHECKSIG then
            Inr (P2PKHTelestaiAddress \<lparr>nVersion = pa, raw = pyslice 3 23 c\<rparr>)
          else if bare \<and> length c = 35 \<and> c ! 0 = 0x21 \<and> c ! 34 = OP_CHECKSIG then
            Inr (P2PKHTelestaiAddress \<lparr>nVersion = pa, raw = Hash160 H (pyslice 1 34 c)\<rparr>)
          else if bare \<and> length c = 67 \<and> c ! 0 = 0x41 \<and> c ! 66 = OP_CHECKSIG then
            Inr (P2PKHTelestaiAddress \<lparr>nVersion = pa, raw = Hash160 H (pyslice 1 65 c)\<rparr>)
          else Inl CTelestaiAddressError)"
proof (cases "canonicalize s")
  case (Inl e)
  then have "e = CScriptInvalidError" by (rule canonicalize_error)
  with Inl show ?thesis by (simp add: P2PKH_from_scriptPubKey_def)
next
  case (Inr c)
  then show ?thesis
    using assms
    by (simp add: P2PKH_from_scriptPubKey_def P2PKH_from_bytes_Some P2PKH_from_pubkey_def
        Let_def)
qed


text \<open>
  Claim C5, amended. Under the mainnet, testnet or regtest parameters,
  \<open>CTelestaiAddress.from_scriptPubKey\<close> decides in this order, the first match winning:
  the P2SH template on the script as given yields P2SH of the 20 bytes; otherwise the
  script is rewritten with canonical pushes (a script that cannot be read fails with the
  address error) and then a witness-v0 key-hash script yields P2PKH of its 20-byte
  program, the nested key-hash form yields P2PKH, the P2PKH template yields P2PKH, the
  bare-checksig template with a 33-byte key yields P2PKH of the Hash160 of that key, and
  the bare-checksig template with a 65-byte key yields a P2PKH address. Every other
  script, a witness-v0 script-hash script among them, fails with the address error. No
  P2WSH or P2WPKH address is returned, and no other error escapes.
\<close>

theorem from_scriptPubKey_priority:
  assumes "p \<in> {MainParams, TestNetParams, RegTestParams}"
    and "base58_prefix p ''PUBKEY_ADDR'' = Inr pa" and "base58_prefix p ''SCRIPT_ADDR'' = Inr sa"
  shows "\<exists>h. CTelestaiAddress_from_scriptPubKey p H ec s =
     (if is_p2sh s then Inr (P2SHTelestaiAddress \<lparr>nVersion = sa, raw = pyslice 2 22 s\<rparr>)
      else
        case canonicalize s of
          Inl e \<Rightarrow> Inl CTelestaiAddressError
        | Inr c \<Rightarrow>
            if is_witness_v0_keyhash c then
              Inr (P2PKHTelestaiAddress \<lparr>nVersion = pa, raw = pyslice 2 22 c\<rparr>)
            else if is_witness_v0_nested_keyhash c then
              Inr (P2PKHTelestaiAddress \<lparr>nVersion = pa, raw = pyslice 3 23 c\<rparr>)
            else if length c = 25 \<and> c ! 0 = OP_DUP \<and> c ! 1 = OP_HASH160 \<and> c ! 2 = 0x14
                    \<and> c ! 23 = OP_EQUALVERIFY \<and> c ! 24 = OP_CHECKSIG then
              Inr (P2PKHTelestaiAddress \<lparr>nVersion = pa, raw = pyslice 3 23 c\<rparr>)
            else if length c = 35 \<and> c ! 0 = 0x21 \<and> c ! 34 = OP_CHECKSIG then
              Inr (P2PKHTelestaiAddress \<lparr>nVersion = pa, raw = Hash160 H (pyslice 1 34 c)\<rparr>)
            else if length c = 67 \<and> c ! 0 = 0x41 \<and> c ! 66 = OP_CHECKSIG then
              Inr (P2PKHTelestaiAddress \<lparr>nVersion = pa, raw = h\<rparr>)
            else Inl CTelestaiAddressError)"
proof -
  have ne: "pa \<noteq> sa" using assms by (rule known_params_prefixes)
  have t: "P2PKH_from_scriptPubKey p H ec s True True = Inl CTelestaiAddressError
      \<or> (\<exists>a. P2PKH_from_scriptPubKey p H ec s True True = Inr a)"
    unfolding P2PKH_from_scriptPubKey_table [OF assms(3,2) ne]
    by (simp split: sum.splits)
  have "CTelestaiAddress_from_scriptPubKey p H ec s =
     (if is_p2sh s then Inr (P2SHTelestaiAddress \<lparr>nVersion = sa, raw = pyslice 2 22 s\<rparr>)
      else P2PKH_from_scriptPubKey p H ec s True True)"
    using t assms(3)
    by (auto simp: CTelestaiAddress_from_scriptPubKey_def
        CBase58TelestaiAddress_from_scriptPubKey_def P2SH_from_scriptPubKey_def
        P2SH_from_bytes_Some)
  then show ?thesis
    unfolding P2PKH_from_scriptPubKey_table [OF assms(3,2) ne]
    by (intro exI [of _ "case canonicalize s of Inr c \<Rightarrow> Hash160 H (pyslice 1 65 c) | Inl e \<Rightarrow> []"])
       (simp split: sum.splits)
qed

text \<open>
  Claim C5, as stated, fails. A witness-v0 script-hash script, which the P2WSH class
  accepts, is rejected by \<open>CTelestaiAddress.from_scriptPubKey\<close> with the address error,
  and a witness-v0 key-hash script comes back as a P2PKH address, not as P2WPKH.
\<close>

theorem from_scriptPubKey_witness_scripts:
  "is_witness_v0_scripthash (0x00 # 0x20 # replicate 32 0x11)
   \<and> P2WSH_from_scriptPubKey (0x00 # 0x20 # replicate 32 0x11) =
       Inr (P2WSHTelestaiAddress \<lparr>witver = 0, witprog = replicate 32 0x11\<rparr>)
   \<and> CTelestaiAddress_from_scriptPubKey MainParams example_hashes example_curve
       (0x00 # 0x20 # replicate 32 0x11) = Inl CTelestaiAddressError
   \<and> is_witness_v0_keyhash (0x00 # 0x14 # replicate 20 0x11)
   \<and> CTelestaiAddress_from_scriptPubKey MainParams example_hashes example_curve
       (0x00 # 0x14 # replicate 20 0x11) =
       Inr (P2PKHTelestaiAddress \<lparr>nVersion = 66, raw = replicate 20 0x11\<rparr>)"
proof -
  have c1: "canonicalize (0x00 # 0x20 # replicate 32 0x11) = Inr (0x00 # 0x20 # replicate 32 0x11)"
    by (simp add: read_push_size_def OP_PUSHDATA4_def OP_PUSHDATA1_def OP_0_def
        encode_op_pushdata_def pushdata_def)
  have c2: "canonicalize (0x00 # 0x14 # replicate 20 0x11) = Inr (0x00 # 0x14 # replicate 20 0x11)"
    by (simp add: read_push_size_def OP_PUSHDATA4_def OP_PUSHDATA1_def OP_0_def
        encode_op_pushdata_def pushdata_def)
  have n: "(66::int) \<noteq> 127" by simp
  show ?thesis
    unfolding CTelestaiAddress_from_scriptPubKey_def CBase58TelestaiAddress_from_scriptPubKey_def
      P2PKH_from_scriptPubKey_table [OF prefix_main(2) prefix_main(1) n] c1 c2
    by (simp add: is_witness_v0_scripthash_def is_witness_v0_keyhash_def
        is_witness_v0_nested_keyhash_def P2WSH_from_scriptPubKey_def
        CBech32TelestaiAddress_from_bytes_def P2SH_from_scriptPubKey_def is_p2sh_def pyslice_def
        OP_DUP_def OP_HASH160_def OP_CHECKSIG_def)
qed


theorem from_scriptPubKey_priority_witness:
  "base58_prefix MainParams ''PUBKEY_ADDR'' = Inr 66
   \<and> base58_prefix MainParams ''SCRIPT_ADDR'' = Inr 127
   \<and> CTelestaiAddress_from_scriptPubKey MainParams example_hashes example_curve
       (0x21 # replicate 33 0x02 @ [OP_CHECKSIG]) =
       Inr (P2PKHTelestaiAddress \<lparr>nVersion = 66, raw = replicate 20 0xa5\<rparr>)"
proof -
  define s :: bytes where "s = 0x21 # replicate 33 0x02 @ [OP_CHECKSIG]"
  have m: "MainParams \<in> {MainParams, TestNetParams, RegTestParams}" by simp
  have c: "canonicalize s = Inr s"
    by (simp add: s_def read_push_size_def OP_PUSHDATA4_def OP_PUSHDATA1_def OP_0_def
        OP_CHECKSIG_def encode_op_pushdata_def pushdata_def)
  have f: "\<not> is_p2sh s" "\<not> is_witness_v0_keyhash s" "\<not> is_witness_v0_nested_keyhash s"
      "length s = 35" "s ! 0 = 0x21" "s ! 34 = OP_CHECKSIG"
    by (simp_all add: s_def is_p2sh_def is_witness_v0_keyhash_def
        is_witness_v0_nested_keyhash_def nth_append)
  from from_scriptPubKey_priority [OF m prefix_main(1) prefix_main(2), of example_hashes
      example_curve s]
  have "CTelestaiAddress_from_scriptPubKey MainParams example_hashes example_curve s =
       Inr (P2PKHTelestaiAddress \<lparr>nVersion = 66, raw = replicate 20 0xa5\<rparr>)"
    using c f by (auto simp: example_hashes_def)
  then show ?thesis
    unfolding s_def by (simp only: prefix_main simp_thms)
qed

text \<open>
  Claim C6. Under the mainnet, testnet or regtest parameters, with \<open>pa\<close> and \<open>sa\<close> the
  public-key and script address versions, and for every 20-byte hash \<open>h\<close>:
  \<open>from_bytes(h, pa)\<close> is the P2PKH address of \<open>h\<close>, its \<open>to_scriptPubKey\<close> is the P2PKH
  script of \<open>h\<close>, and \<open>from_scriptPubKey\<close> of that script is the same P2PKH address; the
  same holds for \<open>sa\<close> and P2SH.
\<close>

theorem address_script_roundtrip:
  assumes "p \<in> {MainParams, TestNetParams, RegTestParams}"
    and "base58_prefix p ''PUBKEY_ADDR'' = Inr pa" and "base58_prefix p ''SCRIPT_ADDR'' = Inr sa"
    and "length h = 20"
  shows "CBase58TelestaiAddress_from_bytes p h pa =
           Inr (P2PKHTelestaiAddress \<lparr>nVersion = pa, raw = h\<rparr>)
     \<and> to_scriptPubKey p (P2PKHTelestaiAddress \<lparr>nVersion = pa, raw = h\<rparr>) =
           Inr (OP_DUP # OP_HASH160 # 0x14 # h @ [OP_EQUALVERIFY, OP_CHECKSIG])
     \<and> CTelestaiAddress_from_scriptPubKey p H ec
           (OP_DUP # OP_HASH160 # 0x14 # h @ [OP_EQUALVERIFY, OP_CHECKSIG]) =
           Inr (P2PKHTelestaiAddress \<lparr>nVersion = pa, raw = h\<rparr>)
     \<and> CBase58TelestaiAddress_from_bytes p h sa =
           Inr (P2SHTelestaiAddress \<lparr>nVersion = sa, raw = h\<rparr>)
     \<and> to_scriptPubKey p (P2SHTelestaiAddress \<lparr>nVersion = sa, raw = h\<rparr>) =
           Inr (OP_HASH160 # 0x14 # h @ [OP_EQUAL])
     \<and> CTelestaiAddress_from_scriptPubKey p H ec (OP_HASH160 # 0x14 # h @ [OP_EQUAL]) =
           Inr (P2SHTelestaiAddress \<lparr>nVersion = sa, raw = h\<rparr>)"
proof -
  have ne: "pa \<noteq> sa" using assms(1,2,3) by (rule known_params_prefixes)
  show ?thesis
    by (intro conjI from_bytes_P2PKH [OF assms(3,2) ne] P2PKH_script [OF assms(2,4)]
        roundtrip_P2PKH [OF assms(3,2) ne assms(4)] from_bytes_P2SH [OF assms(3)]
        P2SH_script [OF assms(3,4)] roundtrip_P2SH [OF assms(3,4)])
qed

theorem address_script_roundtrip_witness:
  "CTelestaiAddress_from_scriptPubKey MainParams example_hashes example_curve
       (OP_DUP # OP_HASH160 # 0x14 # replicate 20 0x11 @ [OP_EQUALVERIFY, OP_CHECKSIG]) =
     Inr (P2PKHTelestaiAddress \<lparr>nVersion = 66, raw = replicate 20 0x11\<rparr>)
   \<and> CTelestaiAddress_from_scriptPubKey MainParams example_hashes example_curve
       (OP_HASH160 # 0x14 # replicate 20 0x11 @ [OP_EQUAL]) =
     Inr (P2SHTelestaiAddress \<lparr>nVersion = 127, raw = replicate 20 0x11\<rparr>)"
proof -
  have m: "MainParams \<in> {MainParams, TestNetParams, RegTestParams}" by simp
  have l: "length (replicate 20 (0x11 :: byte)) = 20" by simp
  from address_script_roundtrip [OF m prefix_main(1) prefix_main(2) l]
  show ?thesis by blast
qed

section \<open>Base58 and WIF\<close>

lemma digits_value_simps [simp]:
  "digits_value b [] = 0"
  "digits_value b (d # ds) = d + b * digits_value b ds"
  by (simp_all add: digits_value_def)

declare to_digits.simps [simp del]

lemma to_digits_0 [simp]: "to_digits b 0 = []"
  by (simp add: to_digits.simps)

lemma to_digits_step: "2 \<le> b \<Longrightarrow> 0 < n \<Longrightarrow> to_digits b n = (n mod b) # to_digits b (n div b)"
  by (subst to_digits.simps) simp

lemma value_to_digits: "2 \<le> b \<Longrightarrow> digits_value b (to_digits b n) = n"
proof (induction b n rule: to_digits.induct)
  case (1 b n)
  show ?case
  proof (cases "n = 0")
    case True
    then show ?thesis by simp
  next
    case False
    with 1 show ?thesis by (simp add: to_digits_step)
  qed
qed

lemma to_digits_less: "2 \<le> b \<Longrightarrow> d \<in> set (to_digits b n) \<Longrightarrow> d < b"
proof (induction b n rule: to_digits.induct)
  case (1 b n)
  show ?case
  proof (cases "n = 0")
    case True
    with 1 show ?thesis by simp
  next
    case False
    with 1 show ?thesis by (auto simp: to_digits_step)
  qed
qed

lemma to_digits_last: "2 \<le> b \<Longrightarrow> 0 < n \<Longrightarrow> to_digits b n \<noteq> [] \<and> last (to_digits b n) \<noteq> 0"
proof (induction b n rule: to_digits.induct)
  case (1 b n)
  show ?case
  proof (cases "n div b = 0")
    case True
    with 1 have "n < b" by (simp add: div_eq_0_iff)
    with 1 True show ?thesis by (simp add: to_digits_step)
  next
    case False
    with 1 show ?thesis by (simp add: to_digits_step)
  qed
qed

lemma to_digits_value:
  "2 \<le> b \<Longrightarrow> \<forall>d\<in>set ds. d < b \<Longrightarrow> ds = [] \<or> last ds \<noteq> 0 \<Longrightarrow>
   to_digits b (digits_value b ds) = ds"
proof (induction ds)
  case Nil
  then show ?case by simp
next
  case (Cons d ds)
  have pos: "0 < d + b * digits_value b ds"
  proof (cases "ds = []")
    case True
    with Cons.prems show ?thesis by simp
  next
    case False
    with Cons have "to_digits b (digits_value b ds) = ds" by simp
    with False have "digits_value b ds \<noteq> 0" by (metis to_digits_0)
    with Cons.prems(1) show ?thesis by simp
  qed
  have ih: "to_digits b (digits_value b ds) = ds"
    using Cons by (cases "ds = []") auto
  from Cons.prems have d: "d < b" by simp
  show ?case
    using pos d ih Cons.prems(1) by (simp add: to_digits_step)
qed

lemma foldl_digits: "foldl (\<lambda>a d. a * b + d) 0 ds = digits_value b (rev ds)"
  by (induction ds rule: rev_induct) simp_all

lemma be_nat_value: "be_nat bs = digits_value 256 (rev (map unat bs))"
  by (simp add: be_nat_def foldl_digits [symmetric] foldl_map)


lemma B58_distinct: "distinct B58_DIGITS"
  by (simp add: B58_DIGITS_def)

lemma B58_length: "length B58_DIGITS = 58"
  by (simp add: B58_DIGITS_def)

lemma B58_zero: "B58_DIGITS ! 0 = CHR ''1''"
  by (simp add: B58_DIGITS_def)

lemma B58_index: "d < 58 \<Longrightarrow> index_of B58_DIGITS (B58_DIGITS ! d) = Some d"
  by (rule index_of_nth [OF B58_distinct]) (simp add: B58_length)

lemma B58_one_iff: "d < 58 \<Longrightarrow> B58_DIGITS ! d = CHR ''1'' \<longleftrightarrow> d = 0"
  using nth_eq_iff_index_eq [OF B58_distinct, of d 0] by (simp add: B58_length B58_zero)

lemma b58_value_digits:
  "\<forall>d\<in>set ds. d < 58 \<Longrightarrow>
   b58_value n (map (\<lambda>d. B58_DIGITS ! d) ds) = Inr (foldl (\<lambda>a d. a * 58 + d) n ds)"
  by (induction ds arbitrary: n) (simp_all add: B58_index)

lemma b58_value_ones:
  "b58_value 0 (replicate z (CHR ''1'') @ cs) = b58_value 0 cs"
proof (induction z)
  case 0
  show ?case by simp
next
  case (Suc z)
  have "index_of B58_DIGITS (CHR ''1'') = Some 0"
    using B58_index [of 0] by (simp add: B58_zero)
  with Suc show ?case by simp
qed

lemma takeWhile_replicate_append:
  "cs = [] \<or> \<not> P (hd cs) \<Longrightarrow> P x \<Longrightarrow> takeWhile P (replicate z x @ cs) = replicate z x"
  by (induction z) (auto simp: takeWhile_eq_Nil_iff hd_conv_nth neq_Nil_conv)

lemma split_leading:
  "bs = replicate (length (takeWhile (\<lambda>c. c = x) bs)) x @ dropWhile (\<lambda>c. c = x) bs"
proof -
  have "takeWhile (\<lambda>c. c = x) bs = replicate (length (takeWhile (\<lambda>c. c = x) bs)) x"
    by (rule replicate_length_same [symmetric]) (auto dest: set_takeWhileD)
  then show ?thesis
    by (metis takeWhile_dropWhile_id)
qed

lemma digits_value_zeros: "digits_value b (replicate z 0) = 0"
  by (induction z) simp_all

lemma digits_value_append_zeros: "digits_value b (ds @ replicate z 0) = digits_value b ds"
  by (induction ds) (simp_all add: digits_value_zeros)

lemma be_nat_leading_zeros: "be_nat (replicate z 0 @ bs) = be_nat bs"
  by (simp add: be_nat_value digits_value_append_zeros)

lemma be_bytes_be_nat:
  assumes "bs = [] \<or> hd bs \<noteq> 0"
  shows "be_bytes (be_nat bs) = bs"
proof -
  have less: "\<forall>d\<in>set (rev (map unat bs)). d < 256"
  proof
    fix d assume "d \<in> set (rev (map unat bs))"
    then obtain x :: byte where "d = unat x" by auto
    moreover have "(unsigned x :: nat) < 2 ^ LENGTH(8)" by (rule unsigned_less)
    ultimately show "d < 256" by simp
  qed
  have lst: "rev (map unat bs) = [] \<or> last (rev (map unat bs)) \<noteq> 0"
    using assms by (cases bs) (auto simp: unat_eq_0)
  have "to_digits 256 (be_nat bs) = rev (map unat bs)"
    unfolding be_nat_value by (rule to_digits_value [OF _ less lst]) simp
  then show ?thesis
    by (simp add: be_bytes_def rev_map [symmetric] comp_def)
qed


text \<open>Decoding inverts encoding: \<open>b58decode (b58encode bs)\<close> is \<open>bs\<close>.\<close>

lemma b58decode_b58encode: "b58decode (b58encode bs) = Inr bs"
proof -
  define z where "z = length (takeWhile (\<lambda>c. c = 0) bs)"
  define rest where "rest = dropWhile (\<lambda>c. c = 0) bs"
  define n where "n = be_nat bs"
  define ds where "ds = rev (to_digits 58 n)"
  define cs where "cs = map (\<lambda>d. B58_DIGITS ! d) ds"
  have bs: "bs = replicate z 0 @ rest"
    unfolding z_def rest_def by (rule split_leading)
  have rest: "rest = [] \<or> hd rest \<noteq> 0"
    unfolding rest_def using hd_dropWhile [of "\<lambda>c. c = 0" bs] by blast
  have n: "n = be_nat rest"
    unfolding n_def by (subst bs) (rule be_nat_leading_zeros)
  have less: "\<forall>d\<in>set ds. d < 58"
    unfolding ds_def using to_digits_less [of 58 _ n] by simp
  have enc: "b58encode bs = replicate z (CHR ''1'') @ cs"
    by (simp add: b58encode_def z_def cs_def ds_def n_def)
  have val: "b58_value 0 (replicate z (CHR ''1'') @ cs) = Inr n"
  proof -
    have "b58_value 0 (replicate z (CHR ''1'') @ cs) = Inr (foldl (\<lambda>a d. a * 58 + d) 0 ds)"
      unfolding b58_value_ones cs_def using less by (rule b58_value_digits)
    also have "foldl (\<lambda>a d. a * 58 + d) 0 ds = n"
      by (simp add: foldl_digits ds_def value_to_digits)
    finally show ?thesis .
  qed
  have hd: "cs = [] \<or> \<not> hd cs = CHR ''1''"
  proof (cases "ds = []")
    case True
    then show ?thesis by (simp add: cs_def)
  next
    case False
    then have "to_digits 58 n \<noteq> []" by (simp add: ds_def)
    then have "0 < n" by (cases "n = 0") simp_all
    then have "last (to_digits 58 n) \<noteq> 0" using to_digits_last [of 58 n] by simp
    with False have "hd ds \<noteq> 0" by (simp add: ds_def hd_rev)
    moreover have "hd ds < 58" using less False by simp
    ultimately have "B58_DIGITS ! hd ds \<noteq> CHR ''1''" by (simp add: B58_one_iff)
    with False show ?thesis by (simp add: cs_def hd_map)
  qed
  have tw: "takeWhile (\<lambda>c. c = CHR ''1'') (replicate z (CHR ''1'') @ cs) = replicate z (CHR ''1'')"
    using hd by (intro takeWhile_replicate_append) simp_all
  have "b58decode (b58encode bs) = Inr (replicate z 0 @ be_bytes n)"
    by (simp add: b58decode_def enc val tw)
  also have "be_bytes n = rest"
    unfolding n using rest by (rule be_bytes_be_nat)
  finally show ?thesis using bs by simp
qed


lemma CBase58Data_new_encode:
  assumes "\<forall>x. length (double_sha256 H x) = 32"
  shows "CBase58Data_new H (b58encode (v # d @ take 4 (double_sha256 H (v # d)))) =
     Inr \<lparr>nVersion = uint v, raw = d\<rparr>"
proof -
  have l: "length (take 4 (double_sha256 H (v # d))) = 4"
    using assms by simp
  show ?thesis
    using l
    by (simp add: CBase58Data_new_def b58decode_b58encode CBase58Data_from_bytes_def Let_def)
qed

lemma secret_prefix:
  assumes "p \<in> {MainParams, TestNetParams, RegTestParams}"
    and "base58_prefix p ''SECRET_KEY'' = Inr sk"
  shows "bytes1 sk = Inr [word_of_int sk]" and "uint (word_of_int sk :: byte) = sk"
  using assms by (auto simp: bytes1_def)

lemma init_payload:
  assumes "base58_prefix p ''SECRET_KEY'' = Inr sk" and "set_secretbytes_ok ec s"
    and "length s = 32" and "f = [] \<or> (\<exists>t. f = 1 # t)"
  shows "CTelestaiSecret_init p ec \<lparr>nVersion = sk, raw = s @ f\<rparr> =
     Inr \<lparr>b58 = \<lparr>nVersion = sk, raw = s @ f\<rparr>,
          key = \<lparr>cec_secret = s, cec_compressed = (f \<noteq> []), pub = get_pubkey ec s (f \<noteq> [])\<rparr>\<rparr>"
  using assms
  by (auto simp: CTelestaiSecret_init_def CKey_init_def pyslice_def nth_append)

text \<open>
  The objects of the round trip, written out. For a compressed key \<open>to_wif\<close> appends the
  flag byte to bytes that already end with it, so the decoded object holds the secret
  and two flag bytes; the key set up from it is the same.
\<close>

lemma wif_objects:
  fixes b :: bool
  assumes "p \<in> {MainParams, TestNetParams, RegTestParams}"
    and "base58_prefix p ''SECRET_KEY'' = Inr sk"
    and "\<forall>x. length (double_sha256 H x) = 32"
    and "\<forall>x c. length (get_pubkey ec x c) = (if c then 33 else 65)"
    and "set_secretbytes_ok ec s" and "length s = 32"
  defines "K \<equiv> \<lparr>cec_secret = s, cec_compressed = b, pub = get_pubkey ec s b\<rparr>"
    and "f \<equiv> (if b then [0x01] else [])"
    and "g \<equiv> (if b then [0x01, 0x01] else [])"
  shows "\<exists>w. from_secret_bytes p ec s b = Inr \<lparr>b58 = \<lparr>nVersion = sk, raw = s @ f\<rparr>, key = K\<rparr>
      \<and> to_wif p H \<lparr>b58 = \<lparr>nVersion = sk, raw = s @ f\<rparr>, key = K\<rparr> = Inr w
      \<and> CTelestaiSecret_new p H ec w = Inr \<lparr>b58 = \<lparr>nVersion = sk, raw = s @ g\<rparr>, key = K\<rparr>
      \<and> is_compressed K = b"
proof -
  define vb :: byte where "vb = word_of_int sk"
  define w where "w = b58encode (vb # (s @ g) @ take 4 (double_sha256 H (vb # s @ g)))"
  have fb: "(f \<noteq> []) = b" "f = [] \<or> (\<exists>t. f = 1 # t)" by (simp_all add: f_def)
  have gb: "(g \<noteq> []) = b" "g = [] \<or> (\<exists>t. g = 1 # t)" by (simp_all add: g_def)
  have ic: "is_compressed K = b"
    using assms(4) by (simp add: is_compressed_def K_def)
  have k: "from_secret_bytes p ec s b = Inr \<lparr>b58 = \<lparr>nVersion = sk, raw = s @ f\<rparr>, key = K\<rparr>"
    using init_payload [OF assms(2,5,6) fb(2)] assms(2)
    by (simp add: from_secret_bytes_def CBase58Data_from_bytes_def f_def [symmetric] fb K_def)
  have wif: "to_wif p H \<lparr>b58 = \<lparr>nVersion = sk, raw = s @ f\<rparr>, key = K\<rparr> = Inr w"
    using assms(2) secret_prefix(1) [OF assms(1,2)]
    by (simp add: to_wif_def ic Let_def w_def vb_def f_def g_def)
  have dec: "CBase58Data_new H w = Inr \<lparr>nVersion = sk, raw = s @ g\<rparr>"
    unfolding w_def using CBase58Data_new_encode [OF assms(3), of vb "s @ g"]
      secret_prefix(2) [OF assms(1,2)]
    by (simp add: vb_def)
  have k': "CTelestaiSecret_new p H ec w = Inr \<lparr>b58 = \<lparr>nVersion = sk, raw = s @ g\<rparr>, key = K\<rparr>"
    using init_payload [OF assms(2,5,6) gb(2)]
    by (simp add: CTelestaiSecret_new_def dec gb K_def)
  show ?thesis
    using k wif k' ic by blast
qed

text \<open>
  Claim C1. Under the mainnet, testnet or regtest parameters, with a hash library whose
  double SHA-256 digests have 32 bytes and a curve library whose public keys have 33
  bytes when compressed and 65 otherwise, for every 32-byte secret \<open>s\<close> the curve library
  accepts and every flag \<open>b\<close>: \<open>from_secret_bytes(s, b)\<close> succeeds, \<open>to_wif\<close> of the result
  succeeds, and \<open>CTelestaiSecret\<close> of that string succeeds with the same key: the same
  secret bytes, the same public key and the same compressed flag.
\<close>

theorem wif_roundtrip:
  assumes "p \<in> {MainParams, TestNetParams, RegTestParams}"
    and "base58_prefix p ''SECRET_KEY'' = Inr sk"
    and "\<forall>x. length (double_sha256 H x) = 32"
    and "\<forall>x c. length (get_pubkey ec x c) = (if c then 33 else 65)"
    and "set_secretbytes_ok ec s" and "length s = 32"
  shows "\<exists>k w k'. from_secret_bytes p ec s b = Inr k
      \<and> to_wif p H k = Inr w
      \<and> CTelestaiSecret_new p H ec w = Inr k'
      \<and> key k' = key k
      \<and> cec_secret (key k') = s
      \<and> is_compressed (key k') = b"
proof -
  from wif_objects [OF assms, of b] obtain w where
    "from_secret_bytes p ec s b =
       Inr \<lparr>b58 = \<lparr>nVersion = sk, raw = s @ (if b then [0x01] else [])\<rparr>,
            key = \<lparr>cec_secret = s, cec_compressed = b, pub = get_pubkey ec s b\<rparr>\<rparr>"
    "to_wif p H \<lparr>b58 = \<lparr>nVersion = sk, raw = s @ (if b then [0x01] else [])\<rparr>,
            key = \<lparr>cec_secret = s, cec_compressed = b, pub = get_pubkey ec s b\<rparr>\<rparr> = Inr w"
    "CTelestaiSecret_new p H ec w =
       Inr \<lparr>b58 = \<lparr>nVersion = sk, raw = s @ (if b then [0x01, 0x01] else [])\<rparr>,
            key = \<lparr>cec_secret = s, cec_compressed = b, pub = get_pubkey ec s b\<rparr>\<rparr>"
    "is_compressed \<lparr>cec_secret = s, cec_compressed = b, pub = get_pubkey ec s b\<rparr> = b"
    by blast
  then show ?thesis by simp
qed

lemma example_hash_length: "\<forall>x. length (double_sha256 example_hashes x) = 32"
  by (simp add: example_hashes_def)

lemma example_pubkey_length:
  "\<forall>x c. length (get_pubkey example_curve x c) = (if c then 33 else 65)"
  by (simp add: example_curve_def example_pubkey_def)

theorem wif_roundtrip_witness:
  "\<exists>k w k'. from_secret_bytes MainParams example_curve (replicate 32 7) True = Inr k
      \<and> to_wif MainParams example_hashes k = Inr w
      \<and> CTelestaiSecret_new MainParams example_hashes example_curve w = Inr k'
      \<and> key k' = key k
      \<and> cec_secret (key k') = replicate 32 7
      \<and> is_compressed (key k') = True"
proof -
  have m: "MainParams \<in> {MainParams, TestNetParams, RegTestParams}" by simp
  have ok: "set_secretbytes_ok example_curve (replicate 32 7)"
    by (simp add: example_curve_def)
  have l: "length (replicate 32 (7 :: byte)) = 32" by simp
  show ?thesis
    by (rule wif_roundtrip [OF m prefix_main(3) example_hash_length example_pubkey_length ok l])
qed

end
